theory Spec2Isabelle
  imports Complex_Main "HOL-Library.Product_Lexorder"
begin

section \<open>Python strings\<close>

text \<open>
  A Python \<open>str\<close> is a sequence of Unicode code points; \<open>len\<close>, indexing, slicing and
  \<open>find\<close> all count code points. A text is therefore a list of code points, each a
  natural number, and \<open>ascii\<close> reads an ASCII literal as such a list.
\<close>

type_synonym ustr = "nat list"

definition ascii :: "string \<Rightarrow> ustr" where
  "ascii s = map of_char s"

text \<open>
  What the standard library knows about code points outside ASCII, and the regular
  expression engine, are not part of the repository: they are parameters.
  \<^item> \<open>lib_tolower\<close>: the lowercase of a code point above 127 other than U+0130 and
    U+03A3 (one code point for one code point);
  \<^item> \<open>lib_final_sigma s i\<close>: whether the capital sigma at index \<open>i\<close> of \<open>s\<close> stands in the
    final-sigma context;
  \<^item> \<open>lib_isalnum\<close>: \<open>str.isalnum\<close> of a code point above 127;
  \<^item> \<open>lib_isdecimal\<close>: whether a code point above 127 matches \<open>\d\<close>;
  \<^item> \<open>lib_checknetloc\<close>: whether \<open>urllib.parse._checknetloc\<close> accepts a non-ASCII netloc;
  \<^item> \<open>lib_check_bracketed_host\<close>: whether \<open>urllib.parse._check_bracketed_host\<close>
    accepts the text between the brackets of a netloc;
  \<^item> \<open>lib_re_compile\<close>: what \<open>re.compile\<close> comes to on a pattern and its flags: it
    raises \<open>re.error\<close> (\<open>ReError\<close>), it raises another exception, such as the
    \<open>OverflowError\<close> of a repeat count that is too large (\<open>ReRaises\<close>), or it returns a
    compiled pattern, which is the function from a text to the spans \<open>finditer\<close> yields
    on it;
  \<^item> \<open>lib_email_finditer\<close>, \<open>lib_phone_finditer\<close>: the matched substrings of the e-mail
    and phone patterns of the extractor.
\<close>

datatype re_flag = IGNORECASE | MULTILINE | DOTALL

type_synonym re_pattern = "ustr \<Rightarrow> (nat \<times> nat) list"

datatype re_compiled = ReError | ReRaises | ReCompiled re_pattern

record pylib =
  lib_tolower :: "nat \<Rightarrow> nat"
  lib_final_sigma :: "ustr \<Rightarrow> nat \<Rightarrow> bool"
  lib_isalnum :: "nat \<Rightarrow> bool"
  lib_isdecimal :: "nat \<Rightarrow> bool"
  lib_checknetloc :: "ustr \<Rightarrow> bool"
  lib_check_bracketed_host :: "ustr \<Rightarrow> bool"
  lib_re_compile :: "ustr \<Rightarrow> re_flag set \<Rightarrow> re_compiled"
  lib_email_finditer :: "ustr \<Rightarrow> ustr list"
  lib_phone_finditer :: "ustr \<Rightarrow> ustr list"

text \<open>
  \<open>str.lower\<close>: every code point becomes one code point, except U+0130 (capital I with
  dot above), which becomes the two code points U+0069 U+0307.
\<close>

definition lower_cp :: "pylib \<Rightarrow> ustr \<Rightarrow> nat \<Rightarrow> nat \<Rightarrow> ustr" where
  "lower_cp L s i c =
     (if c = 304 then [105, 775]
      else if c = 931 then [if lib_final_sigma L s i then 962 else 963]
      else if c < 128 then [if 65 \<le> c \<and> c \<le> 90 then c + 32 else c]
      else [lib_tolower L c])"

fun lower_from :: "pylib \<Rightarrow> ustr \<Rightarrow> nat \<Rightarrow> ustr \<Rightarrow> ustr" where
  "lower_from L s i [] = []"
| "lower_from L s i (c # cs) = lower_cp L s i c @ lower_from L s (Suc i) cs"

definition py_lower :: "pylib \<Rightarrow> ustr \<Rightarrow> ustr" where
  "py_lower L s = lower_from L s 0 s"

text \<open>\<open>str.isspace\<close> of one code point, and \<open>str.strip\<close> with and without an argument.\<close>

definition py_isspace :: "nat \<Rightarrow> bool" where
  "py_isspace c \<longleftrightarrow>
     (9 \<le> c \<and> c \<le> 13) \<or> (28 \<le> c \<and> c \<le> 32) \<or> c = 133 \<or> c = 160 \<or> c = 5760 \<or>
     (8192 \<le> c \<and> c \<le> 8202) \<or> c = 8232 \<or> c = 8233 \<or> c = 8239 \<or> c = 8287 \<or> c = 12288"

definition py_strip :: "ustr \<Rightarrow> ustr" where
  "py_strip s = rev (dropWhile py_isspace (rev (dropWhile py_isspace s)))"

definition strip_chars :: "ustr \<Rightarrow> ustr \<Rightarrow> ustr" where
  "strip_chars chars s =
     rev (dropWhile (\<lambda>c. c \<in> set chars) (rev (dropWhile (\<lambda>c. c \<in> set chars) s)))"

definition rstrip_chars :: "ustr \<Rightarrow> ustr \<Rightarrow> ustr" where
  "rstrip_chars chars s = rev (dropWhile (\<lambda>c. c \<in> set chars) (rev s))"

text \<open>\<open>s.startswith(p)\<close>, the slice \<open>s[i:j]\<close> for \<open>0 \<le> i\<close>, and \<open>s.find(sub, start)\<close>
  (\<open>None\<close> for Python's \<open>-1\<close>).\<close>

definition startswith :: "ustr \<Rightarrow> ustr \<Rightarrow> bool" where
  "startswith s p \<longleftrightarrow> take (length p) s = p"

definition slice :: "ustr \<Rightarrow> nat \<Rightarrow> nat \<Rightarrow> ustr" where
  "slice s i j = take (j - i) (drop i s)"

fun find_from :: "ustr \<Rightarrow> ustr \<Rightarrow> nat \<Rightarrow> nat option" where
  "find_from sub [] i = (if sub = [] then Some i else None)"
| "find_from sub (c # cs) i =
     (if startswith (c # cs) sub then Some i else find_from sub cs (Suc i))"

definition py_find :: "ustr \<Rightarrow> ustr \<Rightarrow> nat \<Rightarrow> nat option" where
  "py_find s sub start = (if length s < start then None else find_from sub (drop start s) start)"

section \<open>Text normalizer (app/utils/text\_norm.py)\<close>

definition ZERO_WIDTH :: "nat list" where
  "ZERO_WIDTH = [8203, 8204, 8205, 65279]"

definition normalize_for_matching :: "pylib \<Rightarrow> ustr \<Rightarrow> ustr" where
  "normalize_for_matching L text =
     (if text = [] then []
      else py_lower L (map (\<lambda>ch. if ch \<in> set ZERO_WIDTH then 32 else ch) text))"

section \<open>Data model (app/core/types.py)\<close>

datatype Severity = low | medium | high

datatype Action = allow | verify_out_of_band | report | block

datatype PatternType = keyword | regex

datatype MatchMode = match_any | match_all

record RulePattern =
  p_type :: PatternType
  p_value :: ustr
  p_flags :: "ustr option"
  p_label :: "ustr option"

record RuleWhen =
  when_match :: MatchMode
  when_any_keywords :: "ustr list"
  when_regex :: "ustr list"
  when_patterns :: "RulePattern list"

record Rule =
  r_id :: ustr
  r_title :: ustr
  r_weight :: int
  r_severity :: Severity
  r_when :: RuleWhen
  r_explain :: ustr
  r_action :: Action
  r_tags :: "ustr list"
  r_enabled :: bool

text \<open>
  The offsets of an \<open>Evidence\<close> and of a \<open>TextHighlight\<close> are natural numbers, so the
  validators \<open>start \<ge> 0\<close> and \<open>end \<ge> 0\<close> hold by type. Every \<open>Evidence\<close> the engine builds
  has \<open>end = start + len(needle)\<close> or a non-empty regex span, every \<open>RuleHit\<close> is built
  behind a test that its evidence is not empty, and the score of an \<open>AnalysisResult\<close> is
  clamped, so the remaining validators never raise where the engine calls the
  constructors.
\<close>

record Evidence =
  ev_kind :: PatternType
  ev_pattern :: ustr
  ev_match :: ustr
  ev_start :: nat
  ev_end :: nat
  ev_snippet :: ustr
  ev_label :: "ustr option"

record RuleHit =
  rule_id :: ustr
  title :: ustr
  weight :: int
  severity :: Severity
  action :: Action
  explain :: ustr
  tags :: "ustr list"
  evidence :: "Evidence list"

record TextHighlight =
  hl_start :: nat
  hl_end :: nat
  hl_rule_id :: ustr
  hl_label :: ustr

record AnalysisResult =
  res_score :: int
  res_severity :: Severity
  res_action :: Action
  res_recommendations :: "ustr list"
  res_hits :: "RuleHit list"
  res_highlights :: "TextHighlight list"

section \<open>Scorer (app/core/scoring.py)\<close>

text \<open>
  \<open>math.exp\<close> and the float arithmetic around it are read as the real exponential and
  real arithmetic; \<open>round\<close> on a float rounds half to even. For every integer
  \<open>raw_points\<close> the exact value of \<open>100 * (1 - exp (- raw_points / 35))\<close> is far enough
  from a half-integer for the double-precision result to round to the same integer.
\<close>

definition py_round :: "real \<Rightarrow> int" where
  "py_round x =
     (let f = \<lfloor>x\<rfloor>; d = x - of_int f
      in if d < 1 / 2 then f else if 1 / 2 < d then f + 1 else if even f then f else f + 1)"

definition normalize_score :: "int \<Rightarrow> int" where
  "normalize_score raw_points =
     (let r = max 0 raw_points;
          score = py_round (100 * (1 - exp (- (of_int r) / 35)))
      in max 0 (min 100 score))"

definition severity_from_score :: "int \<Rightarrow> Severity" where
  "severity_from_score score =
     (if 70 \<le> score then high else if 30 \<le> score then medium else low)"

fun ACTION_PRIORITY :: "Action \<Rightarrow> nat" where
  "ACTION_PRIORITY allow = 0"
| "ACTION_PRIORITY report = 1"
| "ACTION_PRIORITY verify_out_of_band = 2"
| "ACTION_PRIORITY block = 3"

fun base_action :: "Severity \<Rightarrow> Action" where
  "base_action low = allow"
| "base_action medium = verify_out_of_band"
| "base_action high = block"

definition choose_action :: "Severity \<Rightarrow> RuleHit list \<Rightarrow> Action" where
  "choose_action score_severity hits =
     (let base = base_action score_severity;
          top = foldl (\<lambda>top h. if ACTION_PRIORITY top < ACTION_PRIORITY (action h)
                                then action h else top) base hits
      in if ACTION_PRIORITY base \<le> ACTION_PRIORITY top then top else base)"

definition recommendations :: "Action \<Rightarrow> Severity \<Rightarrow> ustr list" where
  "recommendations act sev =
     (if act = block then [ascii ''block'', ascii ''report'']
      else if act = verify_out_of_band
        then [ascii ''verify_out_of_band'', ascii ''report_if_confirmed'']
      else if act = report then [ascii ''report'', ascii ''educate_user'']
      else [ascii ''allow'', ascii ''educate_user''])"

definition add_highlight ::
  "RuleHit \<Rightarrow> (nat \<times> nat \<times> ustr) set \<times> TextHighlight list \<Rightarrow> Evidence \<Rightarrow>
   (nat \<times> nat \<times> ustr) set \<times> TextHighlight list" where
  "add_highlight h st ev =
     (let key = (ev_start ev, ev_end ev, rule_id h)
      in if key \<in> fst st then st
         else (insert key (fst st),
               snd st @ [\<lparr>hl_start = ev_start ev, hl_end = ev_end ev,
                          hl_rule_id = rule_id h, hl_label = title h\<rparr>]))"

definition build_highlights :: "RuleHit list \<Rightarrow> TextHighlight list" where
  "build_highlights hits =
     sort_key (\<lambda>x. (hl_start x, hl_end x))
       (snd (foldl (\<lambda>st h. foldl (add_highlight h) st (evidence h)) ({}, []) hits))"

fun SEVERITY_ORDER :: "Severity \<Rightarrow> nat" where
  "SEVERITY_ORDER low = 0"
| "SEVERITY_ORDER medium = 1"
| "SEVERITY_ORDER high = 2"

definition max_severity :: "RuleHit list \<Rightarrow> Severity" where
  "max_severity hits =
     foldl (\<lambda>top h. if SEVERITY_ORDER top < SEVERITY_ORDER (severity h)
                      then severity h else top) low hits"

text \<open>
  A Python \<open>dict\<close> keeps its keys in the order of their first insertion; assigning to a
  key that is present replaces the value where it stands.
\<close>

fun dict_set :: "('k \<times> 'v) list \<Rightarrow> 'k \<Rightarrow> 'v \<Rightarrow> ('k \<times> 'v) list" where
  "dict_set [] k v = [(k, v)]"
| "dict_set (kv # kvs) k v = (if fst kv = k then (k, v) # kvs else kv # dict_set kvs k v)"

definition unique_hits :: "RuleHit list \<Rightarrow> RuleHit list" where
  "unique_hits hits = map snd (foldl (\<lambda>unique h. dict_set unique (rule_id h) h) [] hits)"

definition raw_points :: "RuleHit list \<Rightarrow> int" where
  "raw_points hits = sum_list (map weight (unique_hits hits))"

definition score_to_result :: "RuleHit list \<Rightarrow> AnalysisResult" where
  "score_to_result hits =
     (let uniq = unique_hits hits;
          score = normalize_score (raw_points hits);
          sev_by_score = severity_from_score score;
          sev_by_hits = max_severity uniq;
          sev = (if SEVERITY_ORDER sev_by_score < SEVERITY_ORDER sev_by_hits
                 then sev_by_hits else sev_by_score);
          act = choose_action sev uniq
      in \<lparr>res_score = score, res_severity = sev, res_action = act,
          res_recommendations = recommendations act sev,
          res_hits = uniq, res_highlights = build_highlights uniq\<rparr>)"

section \<open>Artifact extractor (app/core/extractors.py)\<close>

definition WRAPPING_CHARS :: ustr where
  "WRAPPING_CHARS = [34, 39, 60, 62, 91, 93, 40, 41, 123, 125]"

definition TRAILING_PUNCT :: ustr where
  "TRAILING_PUNCT = [46, 44, 59, 58, 33, 63, 8230]"

text \<open>
  The URL pattern \<open>(?i)\bhttps?://[^\s<>\]]+\<close>, written out. \<open>\w\<close> is a letter, a digit
  or the underscore; ignoring case, \<open>s\<close> also matches U+017F (long s), and \<open>h\<close>, \<open>t\<close>,
  \<open>p\<close> match only their two ASCII forms. \<open>url_match L prev s\<close> is the match that starts at
  the head of \<open>s\<close>, where \<open>prev\<close> is the character before it; \<open>url_finditer\<close> walks the
  text from left to right and passes over the characters of the match it has just
  found.
\<close>

definition is_word :: "pylib \<Rightarrow> nat \<Rightarrow> bool" where
  "is_word L c \<longleftrightarrow>
     (if c < 128
      then (48 \<le> c \<and> c \<le> 57) \<or> (65 \<le> c \<and> c \<le> 90) \<or> (97 \<le> c \<and> c \<le> 122) \<or> c = 95
      else lib_isalnum L c)"

definition url_body_char :: "nat \<Rightarrow> bool" where
  "url_body_char c \<longleftrightarrow> (if py_isspace c then False else c \<noteq> 60 \<and> c \<noteq> 62 \<and> c \<noteq> 93)"

fun scheme_len :: "ustr \<Rightarrow> nat option" where
  "scheme_len (h # t1 # t2 # p # rest) =
     (if (h = 104 \<or> h = 72) \<and> (t1 = 116 \<or> t1 = 84) \<and> (t2 = 116 \<or> t2 = 84) \<and>
         (p = 112 \<or> p = 80)
      then (if startswith rest [58, 47, 47] then Some 7
            else (case rest of
                    [] \<Rightarrow> None
                  | s # rest' \<Rightarrow>
                      if (s = 115 \<or> s = 83 \<or> s = 383) \<and> startswith rest' [58, 47, 47]
                      then Some 8 else None))
      else None)"
| "scheme_len _ = None"

definition url_match :: "pylib \<Rightarrow> nat option \<Rightarrow> ustr \<Rightarrow> ustr option" where
  "url_match L prev s =
     (if (case prev of None \<Rightarrow> False | Some c \<Rightarrow> is_word L c) then None
      else (case scheme_len s of
              None \<Rightarrow> None
            | Some n \<Rightarrow>
                (let body = takeWhile url_body_char (drop n s)
                 in if body = [] then None else Some (take n s @ body))))"

fun url_scan :: "pylib \<Rightarrow> nat \<Rightarrow> nat option \<Rightarrow> ustr \<Rightarrow> ustr list" where
  "url_scan L skip prev [] = []"
| "url_scan L (Suc skip) prev (c # cs) = url_scan L skip (Some c) cs"
| "url_scan L 0 prev (c # cs) =
     (case url_match L prev (c # cs) of
        None \<Rightarrow> url_scan L 0 (Some c) cs
      | Some m \<Rightarrow> m # url_scan L (length m - 1) (Some c) cs)"

definition url_finditer :: "pylib \<Rightarrow> ustr \<Rightarrow> ustr list" where
  "url_finditer L text = url_scan L 0 None text"

definition strip_balanced_wrappers :: "ustr \<Rightarrow> ustr" where
  "strip_balanced_wrappers s =
     (if length s < 2 then s
      else if (hd s, last s) \<in> {(40, 41), (91, 93), (123, 125), (60, 62), (34, 34), (39, 39)}
      then py_strip (butlast (tl s))
      else s)"

text \<open>
  \<open>urllib.parse.urlsplit\<close> (CPython 3.11), as far as the extractor reads its result:
  the netloc, or the \<open>ValueError\<close> it raises, and the \<open>hostname\<close> property of the result.
\<close>

datatype exn = ValueError | UncaughtError

definition ascii_alpha :: "nat \<Rightarrow> bool" where
  "ascii_alpha c \<longleftrightarrow> (65 \<le> c \<and> c \<le> 90) \<or> (97 \<le> c \<and> c \<le> 122)"

definition scheme_char :: "nat \<Rightarrow> bool" where
  "scheme_char c \<longleftrightarrow> ascii_alpha c \<or> (48 \<le> c \<and> c \<le> 57) \<or> c = 43 \<or> c = 45 \<or> c = 46"

definition urlsplit_netloc :: "pylib \<Rightarrow> ustr \<Rightarrow> exn + ustr" where
  "urlsplit_netloc L url0 =
     (let url1 = dropWhile (\<lambda>c. c \<le> 32) url0;
          url2 = filter (\<lambda>c. c \<noteq> 9 \<and> c \<noteq> 13 \<and> c \<noteq> 10) url1;
          scheme = takeWhile (\<lambda>c. c \<noteq> 58) url2;
          url3 = (if length scheme < length url2 \<and> scheme \<noteq> [] \<and> ascii_alpha (hd url2) \<and>
                     list_all scheme_char scheme
                  then drop (Suc (length scheme)) url2 else url2)
      in if take 2 url3 = [47, 47]
         then (let netloc = takeWhile (\<lambda>c. c \<noteq> 47 \<and> c \<noteq> 63 \<and> c \<noteq> 35) (drop 2 url3)
               in if (91 \<in> set netloc \<and> 93 \<notin> set netloc) \<or> (93 \<in> set netloc \<and> 91 \<notin> set netloc)
                  then Inl ValueError
                  else if 91 \<in> set netloc \<and> 93 \<in> set netloc \<and>
                          lib_check_bracketed_host L
                            (takeWhile (\<lambda>c. c \<noteq> 93) (tl (dropWhile (\<lambda>c. c \<noteq> 91) netloc))) = False
                  then Inl ValueError
                  else if netloc \<noteq> [] \<and> list_ex (\<lambda>c. 128 \<le> c) netloc \<and>
                          lib_checknetloc L netloc = False
                  then Inl ValueError
                  else Inr netloc)
         else Inr [])"

definition hostname :: "pylib \<Rightarrow> ustr \<Rightarrow> ustr option" where
  "hostname L netloc =
     (let hostinfo = rev (takeWhile (\<lambda>c. c \<noteq> 64) (rev netloc));
          host = (if 91 \<in> set hostinfo
                  then takeWhile (\<lambda>c. c \<noteq> 93) (tl (dropWhile (\<lambda>c. c \<noteq> 91) hostinfo))
                  else takeWhile (\<lambda>c. c \<noteq> 58) hostinfo)
      in if host = [] then None
         else Some (py_lower L (takeWhile (\<lambda>c. c \<noteq> 37) host) @ dropWhile (\<lambda>c. c \<noteq> 37) host))"

definition clean_url :: "pylib \<Rightarrow> ustr \<Rightarrow> ustr" where
  "clean_url L url =
     (if url = [] then []
      else (let s0 = py_strip url;
                s1 = strip_chars WRAPPING_CHARS s0;
                s2 = rstrip_chars TRAILING_PUNCT s1;
                s3 = rstrip_chars WRAPPING_CHARS s2;
                s = strip_balanced_wrappers s3
            in if startswith (py_lower L s) (ascii ''http://'') \<or>
                  startswith (py_lower L s) (ascii ''https://'')
               then (case urlsplit_netloc L s of
                       Inl e \<Rightarrow> []
                     | Inr netloc \<Rightarrow> if netloc = [] then [] else s)
               else []))"

fun extract_urls_loop :: "pylib \<Rightarrow> ustr set \<Rightarrow> ustr list \<Rightarrow> ustr list" where
  "extract_urls_loop L seen [] = []"
| "extract_urls_loop L seen (raw # raws) =
     (let url = clean_url L raw
      in if url = [] then extract_urls_loop L seen raws
         else if url \<in> seen then extract_urls_loop L seen raws
         else url # extract_urls_loop L (insert url seen) raws)"

definition extract_urls :: "pylib \<Rightarrow> ustr \<Rightarrow> ustr list" where
  "extract_urls L text = (if text = [] then [] else extract_urls_loop L {} (url_finditer L text))"

definition domain_from_url :: "pylib \<Rightarrow> ustr \<Rightarrow> ustr" where
  "domain_from_url L url =
     (if url = [] then []
      else (case urlsplit_netloc L url of
              Inl e \<Rightarrow> []
            | Inr netloc \<Rightarrow>
                (let host = py_lower L (py_strip (case hostname L netloc of None \<Rightarrow> [] | Some h \<Rightarrow> h))
                 in if host = [] then []
                    else rstrip_chars [46]
                           (if startswith host (ascii ''www.'') then drop 4 host else host))))"

fun extract_domains_loop :: "pylib \<Rightarrow> ustr set \<Rightarrow> ustr list \<Rightarrow> ustr list" where
  "extract_domains_loop L seen [] = []"
| "extract_domains_loop L seen (u # us) =
     (let d = domain_from_url L u
      in if d = [] then extract_domains_loop L seen us
         else if d \<in> seen then extract_domains_loop L seen us
         else d # extract_domains_loop L (insert d seen) us)"

definition extract_domains :: "pylib \<Rightarrow> ustr list \<Rightarrow> ustr list" where
  "extract_domains L urls = extract_domains_loop L {} urls"

fun extract_emails_loop :: "pylib \<Rightarrow> ustr set \<Rightarrow> ustr list \<Rightarrow> ustr list" where
  "extract_emails_loop L seen [] = []"
| "extract_emails_loop L seen (m # ms) =
     (let email = py_lower L m
      in if email \<in> seen then extract_emails_loop L seen ms
         else email # extract_emails_loop L (insert email seen) ms)"

definition extract_emails :: "pylib \<Rightarrow> ustr \<Rightarrow> ustr list" where
  "extract_emails L text =
     (if text = [] then [] else extract_emails_loop L {} (lib_email_finditer L text))"

definition is_decimal :: "pylib \<Rightarrow> nat \<Rightarrow> bool" where
  "is_decimal L c \<longleftrightarrow> (if c < 128 then 48 \<le> c \<and> c \<le> 57 else lib_isdecimal L c)"

definition normalize_phone :: "pylib \<Rightarrow> ustr \<Rightarrow> ustr" where
  "normalize_phone L s0 =
     (if s0 = [] then []
      else (let s = py_strip s0;
                plus = startswith s [43];
                digits = filter (is_decimal L) s
            in if length digits < 9 then [] else (if plus then [43] else []) @ digits))"

fun extract_phones_loop :: "pylib \<Rightarrow> ustr set \<Rightarrow> ustr list \<Rightarrow> ustr list" where
  "extract_phones_loop L seen [] = []"
| "extract_phones_loop L seen (m # ms) =
     (let norm = normalize_phone L (py_strip m)
      in if norm = [] then extract_phones_loop L seen ms
         else if norm \<in> seen then extract_phones_loop L seen ms
         else norm # extract_phones_loop L (insert norm seen) ms)"

definition extract_phones :: "pylib \<Rightarrow> ustr \<Rightarrow> ustr list" where
  "extract_phones L text =
     (if text = [] then [] else extract_phones_loop L {} (lib_phone_finditer L text))"

record ExtractedArtifacts =
  art_urls :: "ustr list"
  art_domains :: "ustr list"
  art_emails :: "ustr list"
  art_phones :: "ustr list"

definition extract_all :: "pylib \<Rightarrow> ustr \<Rightarrow> ExtractedArtifacts" where
  "extract_all L text =
     (let urls = extract_urls L text
      in \<lparr>art_urls = urls, art_domains = extract_domains L urls,
          art_emails = extract_emails L text, art_phones = extract_phones L text\<rparr>)"

definition SHORTENER_DOMAINS :: "ustr list" where
  "SHORTENER_DOMAINS =
     [ascii ''bit.ly'', ascii ''t.co'', ascii ''tinyurl.com'', ascii ''goo.gl'', ascii ''ow.ly'',
      ascii ''is.gd'', ascii ''buff.ly'', ascii ''cutt.ly'', ascii ''rebrand.ly'',
      ascii ''shorturl.at'']"

definition is_shortener_domain :: "pylib \<Rightarrow> ustr \<Rightarrow> bool" where
  "is_shortener_domain L domain =
     (let d = py_lower L (py_strip domain)
      in (if startswith d (ascii ''www.'') then drop 4 d else d) \<in> set SHORTENER_DOMAINS)"

definition is_punycode_domain :: "pylib \<Rightarrow> ustr \<Rightarrow> bool" where
  "is_punycode_domain L domain \<longleftrightarrow> py_find (py_lower L domain) (ascii ''xn--'') 0 \<noteq> None"

fun split_on :: "nat \<Rightarrow> ustr \<Rightarrow> ustr list" where
  "split_on sep [] = [[]]"
| "split_on sep (c # cs) =
     (if c = sep then [] # split_on sep cs
      else (case split_on sep cs of [] \<Rightarrow> [[c]] | p # ps \<Rightarrow> (c # p) # ps))"

definition subdomain_count :: "pylib \<Rightarrow> ustr \<Rightarrow> nat" where
  "subdomain_count L domain =
     (let d = py_lower L (strip_chars [46] domain)
      in if d = [] then 0 else length (filter (\<lambda>p. p \<noteq> []) (split_on 46 d)))"

section \<open>Reputation service (app/services/cache.py, app/services/url\_reputation.py)\<close>

record ReputationResult =
  rep_domain :: ustr
  rep_malicious :: int
  rep_suspicious :: int
  rep_harmless :: int
  rep_undetected :: int

record Entry =
  ent_value :: "ReputationResult option"
  ent_expires_at :: real

record TTLCache =
  c_ttl :: int
  c_max_items :: nat
  c_data :: "(ustr \<times> Entry) list"

definition TTLCache_init :: "int \<Rightarrow> int \<Rightarrow> TTLCache" where
  "TTLCache_init ttl_seconds max_items =
     \<lparr>c_ttl = max 1 ttl_seconds, c_max_items = nat (max 50 max_items), c_data = []\<rparr>"

definition dict_pop :: "('k \<times> 'v) list \<Rightarrow> 'k \<Rightarrow> ('k \<times> 'v) list" where
  "dict_pop kvs k = filter (\<lambda>kv. fst kv \<noteq> k) kvs"

definition TTLCache_get ::
  "TTLCache \<Rightarrow> ustr \<Rightarrow> real \<Rightarrow> ReputationResult option \<times> TTLCache" where
  "TTLCache_get c key now =
     (case map_of (c_data c) key of
        None \<Rightarrow> (None, c)
      | Some ent \<Rightarrow>
          if ent_expires_at ent \<le> now then (None, c\<lparr>c_data := dict_pop (c_data c) key\<rparr>)
          else (ent_value ent, c))"

definition TTLCache_purge :: "TTLCache \<Rightarrow> real \<Rightarrow> nat \<Rightarrow> TTLCache" where
  "TTLCache_purge c now target_size =
     (let live = filter (\<lambda>kv. now < ent_expires_at (snd kv)) (c_data c)
      in if length live \<le> target_size then c\<lparr>c_data := live\<rparr>
         else c\<lparr>c_data := drop (length live - target_size) live\<rparr>)"

definition TTLCache_set ::
  "TTLCache \<Rightarrow> ustr \<Rightarrow> ReputationResult option \<Rightarrow> real \<Rightarrow> TTLCache" where
  "TTLCache_set c key v now =
     (let c1 = (if c_max_items c \<le> length (c_data c)
                then TTLCache_purge c now (c_max_items c div 2) else c)
      in c1\<lparr>c_data := dict_set (c_data c1) key
                           \<lparr>ent_value = v, ent_expires_at = now + of_int (c_ttl c1)\<rparr>\<rparr>)"

text \<open>
  The world outside one analysis: \<open>w_clock k\<close> is what the \<open>k\<close>-th call of \<open>time.time()\<close>
  returns, and \<open>w_http d\<close> is what the request for domain \<open>d\<close> comes to:
  \<^item> \<open>RequestFailed\<close>: an exception inside the \<open>try\<close> block (no connection, a timeout, a
    status that \<open>raise_for_status\<close> rejects, a body that is not JSON);
  \<^item> \<open>NotFound404\<close>: status 404;
  \<^item> \<open>MalformedBody\<close>: a JSON body from which the statistics cannot be read (a \<open>.get\<close> on
    a value that is not a mapping, an \<open>int()\<close> of a value that is not a number); this
    exception is raised after the \<open>try\<close> block and leaves \<open>lookup_domain\<close>;
  \<^item> \<open>Stats m s h u\<close>: the four counts read from the body.
\<close>

datatype vt_response = RequestFailed | NotFound404 | MalformedBody | Stats int int int int

record World =
  w_clock :: "nat \<Rightarrow> real"
  w_http :: "ustr \<Rightarrow> vt_response"

record UrlReputationService =
  svc_api_key :: ustr
  svc_enabled :: bool
  svc_cache :: TTLCache

definition UrlReputationService_init :: "ustr \<Rightarrow> UrlReputationService" where
  "UrlReputationService_init vt_api_key =
     \<lparr>svc_api_key = vt_api_key, svc_enabled = (py_strip vt_api_key \<noteq> []),
      svc_cache = TTLCache_init 3600 2000\<rparr>"

text \<open>
  \<open>lookup_domain L W svc k domain\<close>: \<open>k\<close> counts the clock readings made so far. The
  result is what the call returns or the exception that leaves it, the service with
  its cache as the call left it, and the new count.
\<close>

definition lookup_domain ::
  "pylib \<Rightarrow> World \<Rightarrow> UrlReputationService \<Rightarrow> nat \<Rightarrow> ustr \<Rightarrow>
   (exn + ReputationResult option) \<times> UrlReputationService \<times> nat" where
  "lookup_domain L W svc k domain =
     (let d = py_lower L (py_strip domain)
      in if d = [] then (Inr None, svc, k)
         else if svc_enabled svc = False then (Inr None, svc, k)
         else (let cache_key = ascii ''vt:domain:'' @ d;
                   got = TTLCache_get (svc_cache svc) cache_key (w_clock W k);
                   c1 = snd got
               in case fst got of
                    Some cached \<Rightarrow> (Inr (Some cached), svc\<lparr>svc_cache := c1\<rparr>, Suc k)
                  | None \<Rightarrow>
                      (case w_http W d of
                         NotFound404 \<Rightarrow>
                           (Inr None,
                            svc\<lparr>svc_cache := TTLCache_set c1 cache_key None (w_clock W (Suc k))\<rparr>,
                            Suc (Suc k))
                       | RequestFailed \<Rightarrow>
                           (Inr None,
                            svc\<lparr>svc_cache := TTLCache_set c1 cache_key None (w_clock W (Suc k))\<rparr>,
                            Suc (Suc k))
                       | MalformedBody \<Rightarrow> (Inl UncaughtError, svc\<lparr>svc_cache := c1\<rparr>, Suc k)
                       | Stats m su h u \<Rightarrow>
                           (let res = \<lparr>rep_domain = d, rep_malicious = m, rep_suspicious = su,
                                       rep_harmless = h, rep_undetected = u\<rparr>
                            in (Inr (Some res),
                                svc\<lparr>svc_cache :=
                                      TTLCache_set c1 cache_key (Some res) (w_clock W (Suc k))\<rparr>,
                                Suc (Suc k))))))"

section \<open>Rule engine (app/core/rule\_engine.py)\<close>

datatype RulePackError =
    RulePackNotFound
  | YamlParseFailed
  | NotAList
  | NotAMapping nat
  | InvalidSchema nat "ustr option"
  | InvalidRegex ustr ustr
  | NoMatchers ustr

text \<open>
  What leaves the loader when it fails: a \<open>RulePackError\<close>, or an exception of
  \<open>re.compile\<close> that is not an \<open>re.error\<close>, which \<open>_compile_rule\<close> does not catch and
  which carries no rule id.
\<close>

datatype load_error = PackError RulePackError | UncaughtException

definition FLAG_MAP :: "ustr \<Rightarrow> re_flag set" where
  "FLAG_MAP k =
     (if k = [105] then {IGNORECASE} else if k = [109] then {MULTILINE}
      else if k = [115] then {DOTALL} else {})"

definition compile_flags :: "pylib \<Rightarrow> ustr option \<Rightarrow> re_flag set" where
  "compile_flags L flags =
     (case flags of
        None \<Rightarrow> {IGNORECASE, MULTILINE}
      | Some fs \<Rightarrow> foldl (\<lambda>v ch. v \<union> FLAG_MAP (py_lower L [ch])) {} fs)"

definition snippet :: "ustr \<Rightarrow> nat \<Rightarrow> nat \<Rightarrow> ustr" where
  "snippet text start fin =
     (let left = start - 48;
          right = min (length text) (fin + 48)
      in (if 0 < left then [8230] else []) @ slice text left right @
         (if right < length text then [8230] else []))"

text \<open>
  A compiled pattern is a keyword with its lowercased needle or a regex with its
  compiled object: the \<open>kind\<close> tag of the source and the field it selects are one
  constructor, so the two assertions of \<open>_match_one\<close> hold by type, and so does the
  test of \<open>from_yaml\<close> that no regex pattern is left without a compiled object.
\<close>

datatype CompiledPattern =
    CompiledKeyword RulePattern ustr
  | CompiledRegex RulePattern re_pattern

record CompiledRule =
  cr_rule :: Rule
  cr_match_mode :: MatchMode
  cr_patterns :: "CompiledPattern list"

record RuleEngine =
  eng_rules :: "Rule list"
  eng_max_evidence_per_rule :: nat
  eng_compiled :: "CompiledRule list"
  eng_reputation :: UrlReputationService

record AnalysisContext =
  ctx_urls :: "ustr list"
  ctx_domains :: "ustr list"
  ctx_emails :: "ustr list"
  ctx_phones :: "ustr list"

definition rule_patterns :: "Rule \<Rightarrow> RulePattern list" where
  "rule_patterns rule =
     map (\<lambda>kw. \<lparr>p_type = keyword, p_value = py_strip kw, p_flags = None,
                 p_label = Some (ascii ''keyword'')\<rparr>)
       (filter (\<lambda>kw. kw \<noteq> [] \<and> py_strip kw \<noteq> []) (when_any_keywords (r_when rule))) @
     map (\<lambda>rg. \<lparr>p_type = regex, p_value = py_strip rg, p_flags = None,
                 p_label = Some (ascii ''regex'')\<rparr>)
       (filter (\<lambda>rg. rg \<noteq> [] \<and> py_strip rg \<noteq> []) (when_regex (r_when rule))) @
     when_patterns (r_when rule)"

fun compile_patterns ::
  "pylib \<Rightarrow> ustr \<Rightarrow> RulePattern list \<Rightarrow> load_error + CompiledPattern list" where
  "compile_patterns L rid [] = Inr []"
| "compile_patterns L rid (p # ps) =
     (case p_type p of
        keyword \<Rightarrow>
          (case compile_patterns L rid ps of
             Inl e \<Rightarrow> Inl e
           | Inr cs \<Rightarrow> Inr (CompiledKeyword p (py_lower L (p_value p)) # cs))
      | regex \<Rightarrow>
          (case lib_re_compile L (p_value p) (compile_flags L (p_flags p)) of
             ReError \<Rightarrow> Inl (PackError (InvalidRegex rid (p_value p)))
           | ReRaises \<Rightarrow> Inl UncaughtException
           | ReCompiled rx \<Rightarrow>
               (case compile_patterns L rid ps of
                  Inl e \<Rightarrow> Inl e
                | Inr cs \<Rightarrow> Inr (CompiledRegex p rx # cs))))"

definition compile_rule :: "pylib \<Rightarrow> Rule \<Rightarrow> load_error + CompiledRule" where
  "compile_rule L rule =
     (case compile_patterns L (r_id rule) (rule_patterns rule) of
        Inl e \<Rightarrow> Inl e
      | Inr compiled \<Rightarrow>
          if compiled = [] then Inl (PackError (NoMatchers (r_id rule)))
          else Inr \<lparr>cr_rule = rule, cr_match_mode = when_match (r_when rule),
                    cr_patterns = compiled\<rparr>)"

fun compile_rules :: "pylib \<Rightarrow> Rule list \<Rightarrow> load_error + CompiledRule list" where
  "compile_rules L [] = Inr []"
| "compile_rules L (r # rs) =
     (case compile_rule L r of
        Inl e \<Rightarrow> Inl e
      | Inr cr \<Rightarrow> (case compile_rules L rs of Inl e \<Rightarrow> Inl e | Inr crs \<Rightarrow> Inr (cr # crs)))"

text \<open>
  \<open>RuleEngine.__init__\<close>; \<open>vt_api_key\<close> is the value of the environment variable
  \<open>VT_API_KEY\<close>, empty when it is not set.
\<close>

definition RuleEngine_init ::
  "pylib \<Rightarrow> ustr \<Rightarrow> Rule list \<Rightarrow> int \<Rightarrow> load_error + RuleEngine" where
  "RuleEngine_init L vt_api_key rules max_evidence_per_rule =
     (let enabled = filter r_enabled rules
      in case compile_rules L enabled of
           Inl e \<Rightarrow> Inl e
         | Inr compiled \<Rightarrow>
             Inr \<lparr>eng_rules = enabled,
                  eng_max_evidence_per_rule = nat (max 1 max_evidence_per_rule),
                  eng_compiled = compiled,
                  eng_reputation = UrlReputationService_init vt_api_key\<rparr>)"

text \<open>
  The file system, the YAML parser and the schema validation of pydantic are outside
  the repository. A rule pack file is given by what they report on it: whether the path
  exists, whether its text parses, whether the document is a list, and for every entry
  whether it is a mapping and whether \<open>Rule.model_validate\<close> accepts it (with the rule
  it builds) or rejects it (with the \<open>id\<close> entry of the mapping, if it has one).
\<close>

datatype yaml_item = NotMapping | InvalidRule "ustr option" | ValidRule Rule

datatype yaml_doc = NotList | YamlList "yaml_item list"

datatype pack_file = Missing | Unparseable | Parsed yaml_doc

fun validate_items :: "nat \<Rightarrow> yaml_item list \<Rightarrow> load_error + Rule list" where
  "validate_items idx [] = Inr []"
| "validate_items idx (NotMapping # items) = Inl (PackError (NotAMapping idx))"
| "validate_items idx (InvalidRule i # items) = Inl (PackError (InvalidSchema idx i))"
| "validate_items idx (ValidRule r # items) =
     (case validate_items (Suc idx) items of Inl e \<Rightarrow> Inl e | Inr rs \<Rightarrow> Inr (r # rs))"

definition from_yaml ::
  "pylib \<Rightarrow> ustr \<Rightarrow> pack_file \<Rightarrow> int \<Rightarrow> load_error + RuleEngine" where
  "from_yaml L vt_api_key file max_evidence_per_rule =
     (case file of
        Missing \<Rightarrow> Inl (PackError RulePackNotFound)
      | Unparseable \<Rightarrow> Inl (PackError YamlParseFailed)
      | Parsed NotList \<Rightarrow> Inl (PackError NotAList)
      | Parsed (YamlList raw) \<Rightarrow>
          (case validate_items 0 raw of
             Inl e \<Rightarrow> Inl e
           | Inr rules \<Rightarrow> RuleEngine_init L vt_api_key rules max_evidence_per_rule))"

text \<open>
  \<open>_find_keyword\<close>: the last argument of the loop is how many more occurrences may be
  recorded (\<open>max_per_keyword - count\<close>, 8 at the start).
\<close>

fun find_keyword_loop ::
  "ustr \<Rightarrow> ustr \<Rightarrow> ustr \<Rightarrow> ustr option \<Rightarrow> ustr \<Rightarrow> nat \<Rightarrow> nat \<Rightarrow> Evidence list" where
  "find_keyword_loop text haystack needle label pat start 0 = []"
| "find_keyword_loop text haystack needle label pat start (Suc n) =
     (case py_find haystack needle start of
        None \<Rightarrow> []
      | Some idx \<Rightarrow>
          (let fin = idx + length needle
           in \<lparr>ev_kind = keyword, ev_pattern = pat, ev_match = slice text idx fin,
               ev_start = idx, ev_end = fin, ev_snippet = snippet text idx fin,
               ev_label = label\<rparr>
              # find_keyword_loop text haystack needle label pat fin n))"

definition find_keyword ::
  "ustr \<Rightarrow> ustr \<Rightarrow> ustr \<Rightarrow> ustr option \<Rightarrow> ustr \<Rightarrow> Evidence list" where
  "find_keyword text haystack needle label pat =
     (if needle = [] then [] else find_keyword_loop text haystack needle label pat 0 8)"

definition find_regex :: "ustr \<Rightarrow> re_pattern \<Rightarrow> ustr option \<Rightarrow> ustr \<Rightarrow> Evidence list" where
  "find_regex text rx label pat =
     take 10
       (map (\<lambda>m. \<lparr>ev_kind = regex, ev_pattern = pat, ev_match = slice text (fst m) (snd m),
                   ev_start = fst m, ev_end = snd m,
                   ev_snippet = snippet text (fst m) (snd m), ev_label = label\<rparr>)
          (filter (\<lambda>m. fst m \<noteq> snd m) (rx text)))"

fun match_one :: "CompiledPattern \<Rightarrow> ustr \<Rightarrow> ustr \<Rightarrow> Evidence list" where
  "match_one (CompiledKeyword raw kw) text haystack =
     find_keyword text haystack kw (p_label raw) (p_value raw)"
| "match_one (CompiledRegex raw rx) text haystack =
     find_regex text rx (p_label raw) (p_value raw)"

definition to_hit :: "Rule \<Rightarrow> Evidence list \<Rightarrow> RuleHit" where
  "to_hit rule evs =
     \<lparr>rule_id = r_id rule, title = r_title rule, weight = r_weight rule,
      severity = r_severity rule, action = r_action rule, explain = r_explain rule,
      tags = r_tags rule, evidence = evs\<rparr>"

text \<open>
  The loop of the \<open>all\<close> mode returns the flag \<open>ok\<close> and the evidence collected; the two
  loops of the \<open>any\<close> mode return the evidence.
\<close>

fun all_loop ::
  "nat \<Rightarrow> ustr \<Rightarrow> ustr \<Rightarrow> CompiledPattern list \<Rightarrow> Evidence list \<Rightarrow> bool \<times> Evidence list" where
  "all_loop cap text haystack [] acc = (True, acc)"
| "all_loop cap text haystack (cp # cps) acc =
     (case match_one cp text haystack of
        [] \<Rightarrow> (False, acc)
      | e # es \<Rightarrow>
          if cap \<le> length (acc @ [e]) then (True, acc @ [e])
          else all_loop cap text haystack cps (acc @ [e]))"

fun any_inner :: "nat \<Rightarrow> Evidence list \<Rightarrow> Evidence list \<Rightarrow> Evidence list" where
  "any_inner cap [] acc = acc"
| "any_inner cap (e # es) acc =
     (if cap \<le> length (acc @ [e]) then acc @ [e] else any_inner cap es (acc @ [e]))"

fun any_loop ::
  "nat \<Rightarrow> ustr \<Rightarrow> ustr \<Rightarrow> CompiledPattern list \<Rightarrow> Evidence list \<Rightarrow> Evidence list" where
  "any_loop cap text haystack [] acc = acc"
| "any_loop cap text haystack (cp # cps) acc =
     (let acc' = any_inner cap (match_one cp text haystack) acc
      in if cap \<le> length acc' then acc' else any_loop cap text haystack cps acc')"

definition match_rule :: "nat \<Rightarrow> ustr \<Rightarrow> ustr \<Rightarrow> CompiledRule \<Rightarrow> RuleHit option" where
  "match_rule cap text haystack cr =
     (case cr_match_mode cr of
        match_all \<Rightarrow>
          (let r = all_loop cap text haystack (cr_patterns cr) []
           in if fst r \<and> snd r \<noteq> [] then Some (to_hit (cr_rule cr) (snd r)) else None)
      | match_any \<Rightarrow>
          (let evs = any_loop cap text haystack (cr_patterns cr) []
           in if evs \<noteq> [] then Some (to_hit (cr_rule cr) evs) else None))"

definition yaml_hits :: "RuleEngine \<Rightarrow> ustr \<Rightarrow> ustr \<Rightarrow> RuleHit list" where
  "yaml_hits eng text haystack =
     List.map_filter (match_rule (eng_max_evidence_per_rule eng) text haystack)
       (eng_compiled eng)"

subsection \<open>Context rules\<close>

fun token_evidence ::
  "pylib \<Rightarrow> ustr \<Rightarrow> ustr \<Rightarrow> PatternType \<Rightarrow> ustr \<Rightarrow> ustr \<Rightarrow> ustr list \<Rightarrow> Evidence option" where
  "token_evidence L text haystack kind pat label [] = None"
| "token_evidence L text haystack kind pat label (u # us) =
     (if u = [] then token_evidence L text haystack kind pat label us
      else (case py_find haystack (py_lower L u) 0 of
              None \<Rightarrow> token_evidence L text haystack kind pat label us
            | Some idx \<Rightarrow>
                (let fin = idx + length u
                 in Some \<lparr>ev_kind = kind, ev_pattern = pat, ev_match = slice text idx fin,
                          ev_start = idx, ev_end = fin, ev_snippet = snippet text idx fin,
                          ev_label = Some label\<rparr>)))"

definition evidence_for_any_token ::
  "pylib \<Rightarrow> ustr \<Rightarrow> ustr \<Rightarrow> ustr list \<Rightarrow> ustr list \<Rightarrow> PatternType \<Rightarrow> Evidence option" where
  "evidence_for_any_token L text haystack urls domains kind =
     (case token_evidence L text haystack kind (ascii ''context:url'') (ascii ''url'') urls of
        Some ev \<Rightarrow> Some ev
      | None \<Rightarrow>
          token_evidence L text haystack kind (ascii ''context:domain'') (ascii ''domain'')
            domains)"

definition shortener_hits :: "pylib \<Rightarrow> ustr \<Rightarrow> ustr \<Rightarrow> AnalysisContext \<Rightarrow> RuleHit list" where
  "shortener_hits L text haystack ctx =
     (let shortener_domains = filter (is_shortener_domain L) (ctx_domains ctx)
      in if shortener_domains = [] then []
         else (case evidence_for_any_token L text haystack (ctx_urls ctx) shortener_domains
                      keyword of
                 None \<Rightarrow> []
               | Some ev \<Rightarrow>
                   [\<lparr>rule_id = ascii ''CTX-URL-SHORTENER'',
                     title = ascii ''URL shortener detected'',
                     weight = 14, severity = high, action = block,
                     explain = ascii ''Shortened URLs hide the real destination and are commonly used in phishing.'',
                     tags = [ascii ''links'', ascii ''context''],
                     evidence = [ev]\<rparr>]))"

definition punycode_hits :: "pylib \<Rightarrow> ustr \<Rightarrow> ustr \<Rightarrow> AnalysisContext \<Rightarrow> RuleHit list" where
  "punycode_hits L text haystack ctx =
     (let puny_domains = filter (is_punycode_domain L) (ctx_domains ctx)
      in if puny_domains = [] then []
         else (case evidence_for_any_token L text haystack (ctx_urls ctx) puny_domains
                      keyword of
                 None \<Rightarrow> []
               | Some ev \<Rightarrow>
                   [\<lparr>rule_id = ascii ''CTX-URL-PUNYCODE'',
                     title = ascii ''Punycode/IDN domain detected'',
                     weight = 12, severity = high, action = block,
                     explain = ascii ''Punycode domains (xn--) can be used for lookalike attacks via international characters.'',
                     tags = [ascii ''links'', ascii ''context''],
                     evidence = [ev]\<rparr>]))"

definition subdomain_hits :: "pylib \<Rightarrow> ustr \<Rightarrow> ustr \<Rightarrow> AnalysisContext \<Rightarrow> RuleHit list" where
  "subdomain_hits L text haystack ctx =
     (let many_subdomains = filter (\<lambda>d. 5 \<le> subdomain_count L d) (ctx_domains ctx)
      in if many_subdomains = [] then []
         else (case evidence_for_any_token L text haystack (ctx_urls ctx) many_subdomains
                      keyword of
                 None \<Rightarrow> []
               | Some ev \<Rightarrow>
                   [\<lparr>rule_id = ascii ''CTX-URL-SUBDOMAINS'',
                     title = ascii ''Suspiciously deep subdomain chain'',
                     weight = 10, severity = medium, action = verify_out_of_band,
                     explain = ascii ''Very deep subdomain chains are often used to impersonate trusted domains.'',
                     tags = [ascii ''links'', ascii ''context''],
                     evidence = [ev]\<rparr>]))"

text \<open>
  The loop over the domains that asks the reputation service: the flagged results, or
  the exception that left a lookup, with the service and the clock count after it.
\<close>

fun flagged_loop ::
  "pylib \<Rightarrow> World \<Rightarrow> UrlReputationService \<Rightarrow> nat \<Rightarrow> ustr list \<Rightarrow>
   (exn + ReputationResult list) \<times> UrlReputationService \<times> nat" where
  "flagged_loop L W svc k [] = (Inr [], svc, k)"
| "flagged_loop L W svc k (d # ds) =
     (case lookup_domain L W svc k d of
        (Inl e, svc1, k1) \<Rightarrow> (Inl e, svc1, k1)
      | (Inr res, svc1, k1) \<Rightarrow>
          (case flagged_loop L W svc1 k1 ds of
             (Inl e, svc2, k2) \<Rightarrow> (Inl e, svc2, k2)
           | (Inr fl, svc2, k2) \<Rightarrow>
               (Inr (case res of
                       None \<Rightarrow> fl
                     | Some r \<Rightarrow>
                         if 0 < rep_malicious r \<or> 0 < rep_suspicious r then r # fl else fl),
                svc2, k2)))"

text \<open>
  \<open>sorted(flagged, key=..., reverse=True)[0]\<close>: a stable sort in descending order is the
  reverse of the stable ascending sort of the reversed list, so its first element is the
  last element of that sort.
\<close>

definition top_flagged :: "ReputationResult list \<Rightarrow> ReputationResult" where
  "top_flagged flagged =
     last (sort_key (\<lambda>x. (rep_malicious x, rep_suspicious x)) (rev flagged))"

definition reputation_hits ::
  "pylib \<Rightarrow> ustr \<Rightarrow> ustr \<Rightarrow> AnalysisContext \<Rightarrow> ReputationResult list \<Rightarrow> RuleHit list" where
  "reputation_hits L text haystack ctx flagged =
     (if flagged = [] then []
      else (let top = top_flagged flagged
            in case evidence_for_any_token L text haystack (ctx_urls ctx) [rep_domain top]
                    keyword of
                 None \<Rightarrow> []
               | Some ev \<Rightarrow>
                   [\<lparr>rule_id = ascii ''CTX-URL-REPUTATION'',
                     title = ascii ''Domain flagged by reputation service'',
                     weight = (if 0 < rep_malicious top then 25 else 18),
                     severity = high, action = block,
                     explain = ascii ''External reputation service reports this domain as malicious/suspicious.'',
                     tags = [ascii ''links'', ascii ''intel'', ascii ''context''],
                     evidence = [ev]\<rparr>]))"

definition context_hits ::
  "pylib \<Rightarrow> World \<Rightarrow> UrlReputationService \<Rightarrow> nat \<Rightarrow> ustr \<Rightarrow> ustr \<Rightarrow> AnalysisContext \<Rightarrow>
   (exn + RuleHit list) \<times> UrlReputationService \<times> nat" where
  "context_hits L W svc k text haystack ctx =
     (let out = shortener_hits L text haystack ctx @ punycode_hits L text haystack ctx @
                subdomain_hits L text haystack ctx
      in if svc_enabled svc
         then (case flagged_loop L W svc k (ctx_domains ctx) of
                 (Inl e, svc1, k1) \<Rightarrow> (Inl e, svc1, k1)
               | (Inr flagged, svc1, k1) \<Rightarrow>
                   (Inr (out @ reputation_hits L text haystack ctx flagged), svc1, k1))
         else (Inr out, svc, k))"

definition match ::
  "pylib \<Rightarrow> World \<Rightarrow> RuleEngine \<Rightarrow> nat \<Rightarrow> ustr \<Rightarrow> AnalysisContext option \<Rightarrow>
   (exn + RuleHit list) \<times> UrlReputationService \<times> nat" where
  "match L W eng k text ctx =
     (if text = [] then (Inr [], eng_reputation eng, k)
      else (let haystack = normalize_for_matching L text;
                hits = yaml_hits eng text haystack
            in case ctx of
                 None \<Rightarrow> (Inr hits, eng_reputation eng, k)
               | Some c \<Rightarrow>
                   (case context_hits L W (eng_reputation eng) k text haystack c of
                      (Inl e, svc1, k1) \<Rightarrow> (Inl e, svc1, k1)
                    | (Inr chits, svc1, k1) \<Rightarrow> (Inr (hits @ chits), svc1, k1))))"

section \<open>Analyzer (app/core/analyzer.py)\<close>

fun py_join :: "ustr \<Rightarrow> ustr list \<Rightarrow> ustr" where
  "py_join sep [] = []"
| "py_join sep [p] = p"
| "py_join sep (p # q # ps) = p @ sep @ py_join sep (q # ps)"

definition truthy :: "ustr option \<Rightarrow> bool" where
  "truthy v = (case v of None \<Rightarrow> False | Some s \<Rightarrow> s \<noteq> [])"

definition join_message_parts ::
  "ustr option \<Rightarrow> ustr option \<Rightarrow> ustr option \<Rightarrow> ustr option \<Rightarrow> ustr option \<Rightarrow>
   ustr list option \<Rightarrow> ustr" where
  "join_message_parts subject body from_email reply_to headers_raw attachments =
     py_strip (py_join [10]
       ((if truthy subject then [ascii ''Subject: '' @ the subject] else []) @
        (if truthy from_email then [ascii ''From: '' @ the from_email] else []) @
        (if truthy reply_to then [ascii ''Reply-To: '' @ the reply_to] else []) @
        (if truthy headers_raw then [ascii ''Headers:'', the headers_raw] else []) @
        (if truthy body then [ascii ''Body:'', the body] else []) @
        (case attachments of
           None \<Rightarrow> []
         | Some fns \<Rightarrow>
             if fns = [] then []
             else ascii ''Attachments:'' # map (\<lambda>fn. ascii ''- '' @ fn) (filter (\<lambda>fn. fn \<noteq> []) fns))))"

definition analyze ::
  "pylib \<Rightarrow> World \<Rightarrow> RuleEngine \<Rightarrow> nat \<Rightarrow> ustr option \<Rightarrow> ustr option \<Rightarrow> ustr option \<Rightarrow>
   ustr option \<Rightarrow> ustr option \<Rightarrow> ustr list option \<Rightarrow>
   (exn + AnalysisResult) \<times> UrlReputationService \<times> nat" where
  "analyze L W eng k subject body from_email reply_to headers_raw attachments =
     (let text = join_message_parts subject body from_email reply_to headers_raw attachments;
          art = extract_all L text;
          ctx = \<lparr>ctx_urls = art_urls art, ctx_domains = art_domains art,
                 ctx_emails = art_emails art, ctx_phones = art_phones art\<rparr>
      in case match L W eng k text (Some ctx) of
           (Inl e, svc1, k1) \<Rightarrow> (Inl e, svc1, k1)
         | (Inr hits, svc1, k1) \<Rightarrow> (Inr (score_to_result hits), svc1, k1))"

section \<open>When loading a rule pack fails, in words\<close>








section \<open>A cache without intelligence on some keys\<close>

text \<open>
  \<open>no_intel_for K c\<close>: under the keys in \<open>K\<close>, the cache \<open>c\<close> stores no reputation
  result (an entry it stores there holds \<open>None\<close>). A fresh cache is such a cache for
  every \<open>K\<close>.
\<close>

definition no_intel_for :: "ustr set \<Rightarrow> TTLCache \<Rightarrow> bool" where
  "no_intel_for K c \<longleftrightarrow>
     list_all (\<lambda>kv. ent_value (snd kv) = None) (filter (\<lambda>kv. fst kv \<in> K) (c_data c))"

definition vt_key :: "pylib \<Rightarrow> ustr \<Rightarrow> ustr" where
  "vt_key L domain = ascii ''vt:domain:'' @ py_lower L (py_strip domain)"

definition context_of :: "ExtractedArtifacts \<Rightarrow> AnalysisContext" where
  "context_of art =
     \<lparr>ctx_urls = art_urls art, ctx_domains = art_domains art,
      ctx_emails = art_emails art, ctx_phones = art_phones art\<rparr>"

section \<open>Values for closed examples\<close>

text \<open>
  A rule that has keywords only; a hit with one evidence item; a world in which every
  request fails and the \<open>k\<close>-th clock reading is \<open>k\<close>; and a library value for closed
  examples: their texts are ASCII and their rules hold no regex, so none of its fields
  is read.
\<close>

definition kw_rule :: "ustr \<Rightarrow> MatchMode \<Rightarrow> ustr list \<Rightarrow> bool \<Rightarrow> Rule" where
  "kw_rule rid mode kws en =
     \<lparr>r_id = rid, r_title = ascii ''Example rule'', r_weight = 10, r_severity = medium,
      r_when = \<lparr>when_match = mode, when_any_keywords = kws, when_regex = [],
                when_patterns = []\<rparr>,
      r_explain = ascii ''An example'', r_action = report, r_tags = [], r_enabled = en\<rparr>"


definition offline_world :: World where
  "offline_world = \<lparr>w_clock = real, w_http = (\<lambda>d. RequestFailed)\<rparr>"

definition ascii_lib :: pylib where
  "ascii_lib =
     \<lparr>lib_tolower = (\<lambda>c. c), lib_final_sigma = (\<lambda>s i. False), lib_isalnum = (\<lambda>c. False),
      lib_isdecimal = (\<lambda>c. False), lib_checknetloc = (\<lambda>s. True),
      lib_check_bracketed_host = (\<lambda>s. True), lib_re_compile = (\<lambda>p fl. ReError),
      lib_email_finditer = (\<lambda>t. []), lib_phone_finditer = (\<lambda>t. [])\<rparr>"

section \<open>Evaluating the model on concrete inputs\<close>


lemmas str_eval = ascii_def py_strip_def strip_chars_def rstrip_chars_def startswith_def
  py_isspace_def py_lower_def lower_cp_def

lemma find_keyword_loop_numeral:
  "find_keyword_loop text haystack needle label pat start (numeral n) =
     (case py_find haystack needle start of
        None \<Rightarrow> []
      | Some idx \<Rightarrow>
          \<lparr>ev_kind = keyword, ev_pattern = pat, ev_match = slice text idx (idx + length needle),
           ev_start = idx, ev_end = idx + length needle,
           ev_snippet = snippet text idx (idx + length needle), ev_label = label\<rparr>
          # find_keyword_loop text haystack needle label pat (idx + length needle)
              (pred_numeral n))"
  by (simp add: numeral_eq_Suc Let_def split: option.split)

lemmas engine_eval = RuleEngine_init_def kw_rule_def compile_rule_def rule_patterns_def
  match_def yaml_hits_def match_rule_def List.map_filter_def normalize_for_matching_def
  ZERO_WIDTH_def find_keyword_def find_keyword_loop_numeral py_find_def slice_def to_hit_def
  Let_def

section \<open>Properties of the normalizer\<close>

lemma length_lower_from:
  "304 \<notin> set cs \<Longrightarrow> length (lower_from L s i cs) = length cs"
  by (induction cs arbitrary: i) (simp_all add: lower_cp_def)

lemma normalize_for_matching_length_without_U0130:
  "304 \<notin> set text \<Longrightarrow> length (normalize_for_matching L text) = length text"
  by (auto simp: normalize_for_matching_def py_lower_def ZERO_WIDTH_def
      intro!: trans [OF length_lower_from])

section \<open>Properties of the rule engine: evidence spans\<close>

text \<open>
  Where the text holds no U+0130, the normalized text has the length of the text, and
  every evidence item of a keyword is a span of the text whose slice is the recorded
  match.
\<close>

lemma find_from_bounds:
  "find_from sub s i = Some idx \<Longrightarrow>
   i \<le> idx \<and> idx + length sub \<le> i + length s \<and> take (length sub) (drop (idx - i) s) = sub"
proof (induction s arbitrary: i)
  case Nil
  then show ?case by (simp split: if_splits)
next
  case (Cons c cs)
  show ?case
  proof (cases "startswith (c # cs) sub")
    case True
    then have "idx = i" using Cons.prems by simp
    moreover have "length (take (length sub) (c # cs)) = length sub"
      using True by (simp only: startswith_def)
    then have "length sub \<le> length (c # cs)" by simp
    ultimately show ?thesis using True by (simp add: startswith_def)
  next
    case False
    then have f: "find_from sub cs (Suc i) = Some idx" using Cons.prems by simp
    from Cons.IH [OF f] have b: "Suc i \<le> idx" "idx + length sub \<le> Suc i + length cs"
      "take (length sub) (drop (idx - Suc i) cs) = sub" by simp_all
    have "idx - i = Suc (idx - Suc i)" using b(1) by simp
    then show ?thesis using b by simp
  qed
qed

lemma py_find_bounds:
  "py_find s sub start = Some idx \<Longrightarrow>
   start \<le> idx \<and> idx + length sub \<le> length s \<and> slice s idx (idx + length sub) = sub"
proof -
  assume a: "py_find s sub start = Some idx"
  then have le: "start \<le> length s" and f: "find_from sub (drop start s) start = Some idx"
    by (simp_all add: py_find_def split: if_splits)
  have e1: "start \<le> idx"
    and e2: "idx + length sub \<le> start + length (drop start s)"
    and e3: "take (length sub) (drop (idx - start) (drop start s)) = sub"
    using find_from_bounds [OF f] by blast+
  have "drop (idx - start) (drop start s) = drop idx s" using e1 by simp
  then have "take (length sub) (drop idx s) = sub" using e3 by (simp only:)
  then show ?thesis using le e1 e2 by (simp add: slice_def)
qed

lemma find_keyword_loop_spans:
  "e \<in> set (find_keyword_loop t haystack needle label pat start n) \<Longrightarrow>
   ev_start e \<le> ev_end e \<and> ev_end e \<le> length haystack \<and>
   ev_match e = slice t (ev_start e) (ev_end e) \<and>
   slice haystack (ev_start e) (ev_end e) = needle"
proof (induction n arbitrary: start)
  case 0
  then show ?case by simp
next
  case (Suc n)
  show ?case
  proof (cases "py_find haystack needle start")
    case None
    then show ?thesis using Suc.prems by simp
  next
    case (Some idx)
    let ?fin = "idx + length needle"
    from Suc.prems Some have
      "(ev_start e = idx \<and> ev_end e = ?fin \<and> ev_match e = slice t idx ?fin) \<or>
       e \<in> set (find_keyword_loop t haystack needle label pat ?fin n)"
      by (auto simp: Let_def)
    then show ?thesis
    proof
      assume "ev_start e = idx \<and> ev_end e = ?fin \<and> ev_match e = slice t idx ?fin"
      then show ?thesis using py_find_bounds [OF Some] by simp
    next
      assume "e \<in> set (find_keyword_loop t haystack needle label pat ?fin n)"
      then show ?thesis by (rule Suc.IH)
    qed
  qed
qed

lemma keyword_evidence_valid_without_U0130:
  assumes "304 \<notin> set t"
    and "e \<in> set (find_keyword t (normalize_for_matching L t) needle label pat)"
  shows "ev_start e \<le> ev_end e \<and> ev_end e \<le> length t \<and>
         ev_match e = slice t (ev_start e) (ev_end e)"
  using assms find_keyword_loop_spans [of e t "normalize_for_matching L t" needle label pat 0 8]
    normalize_for_matching_length_without_U0130 [of t L]
  by (simp add: find_keyword_def split: if_splits)

text \<open>
  C1 (every evidence item and every highlight satisfies
  \<open>0 \<le> start \<le> end \<le> len(original_text)\<close>): the code does not keep the spans inside
  the text. Offsets are found in the normalized text and used in the original one, and
  the normalized text is longer once the text holds U+0130. On the six-character text
  made of U+0130, a space and \<open>bank\<close>, the keyword \<open>bank\<close> is found at offset 3 of the
  normalized text: the evidence item and the highlight of the result are the span
  from 3 to 7, and the recorded match is \<open>ank\<close>.
\<close>

theorem keyword_evidence_past_the_end:
  "(case RuleEngine_init L [] [kw_rule (ascii ''R-BANK'') match_any [ascii ''bank''] True] 20 of
      Inl e \<Rightarrow> None
    | Inr eng \<Rightarrow>
        (case fst (match L W eng k ([304, 32] @ ascii ''bank'') None) of
           Inl e \<Rightarrow> None
         | Inr hits \<Rightarrow>
             Some (map (\<lambda>h. map (\<lambda>e. (ev_start e, ev_end e, ev_match e)) (evidence h))
                     (res_hits (score_to_result hits)),
                   map (\<lambda>x. (hl_start x, hl_end x)) (res_highlights (score_to_result hits)))))
   = Some ([[(3, 7, ascii ''ank'')]], [(3, 7)]) \<and> length ([304, 32] @ ascii ''bank'') = 6"
  by (simp add: engine_eval str_eval
      score_to_result_def unique_hits_def build_highlights_def add_highlight_def)

section \<open>Properties of the normalizer: the length of the result\<close>

text \<open>
  C2 (the normalizer keeps the length of every text): the code does not. On the
  one-character text U+0130 the result is the two code points U+0069 U+0307, because
  \<open>str.lower\<close> expands that character.
\<close>

theorem normalize_for_matching_U0130:
  "normalize_for_matching L [304] = [105, 775] \<and>
   length (normalize_for_matching L [304]) \<noteq> length [304 :: nat]"
  by (simp add: normalize_for_matching_def py_lower_def lower_cp_def ZERO_WIDTH_def)

section \<open>Properties of the rule engine: the all mode\<close>

lemma all_loop_within_cap:
  "length acc + length cps \<le> cap \<Longrightarrow>
   all_loop cap text haystack cps acc =
     (if list_all (\<lambda>cp. match_one cp text haystack \<noteq> []) cps
      then (True, acc @ map (\<lambda>cp. hd (match_one cp text haystack)) cps)
      else (False, acc @ map (\<lambda>cp. hd (match_one cp text haystack))
                          (takeWhile (\<lambda>cp. match_one cp text haystack \<noteq> []) cps)))"
proof (induction cps arbitrary: acc)
  case Nil
  show ?case by simp
next
  case (Cons cp cps)
  show ?case
  proof (cases "match_one cp text haystack")
    case Nil
    then show ?thesis by simp
  next
    case (Cons e es)
    show ?thesis
    proof (cases "cap \<le> length (acc @ [e])")
      case True
      then have "cps = []" using Cons.prems by (cases cps) simp_all
      then show ?thesis using Cons True by simp
    next
      case False
      have "length (acc @ [e]) + length cps \<le> cap" using Cons.prems by simp
      from Cons.IH [OF this] show ?thesis using Cons False by simp
    qed
  qed
qed

lemma match_rule_all_within_cap:
  assumes "cr_match_mode cr = match_all" and "length (cr_patterns cr) \<le> cap"
    and "cr_patterns cr \<noteq> []"
  shows "match_rule cap text haystack cr =
     (if list_all (\<lambda>cp. match_one cp text haystack \<noteq> []) (cr_patterns cr)
      then Some (to_hit (cr_rule cr) (map (\<lambda>cp. hd (match_one cp text haystack)) (cr_patterns cr)))
      else None)"
  using assms all_loop_within_cap [of "[]" "cr_patterns cr" cap "text" haystack]
  by (simp add: match_rule_def)

lemma all_loop_short_circuit:
  "match_one cp t haystack = [] \<Longrightarrow>
   all_loop cap t haystack (ps @ cp # qs) acc = all_loop cap t haystack (ps @ [cp]) acc"
proof (induction ps arbitrary: acc)
  case Nil
  then show ?case by simp
next
  case (Cons p ps)
  show ?case
  proof (cases "match_one p t haystack")
    case Nil
    then show ?thesis by simp
  next
    case (Cons e es)
    then show ?thesis using Cons.IH [OF Cons.prems] by simp
  qed
qed

text \<open>
  Within the cap the \<open>all\<close> mode does what its comment says: for a compiled rule whose
  patterns are not more than \<open>max_evidence_per_rule\<close>, the rule produces a hit exactly when every pattern
  matches the text; the evidence of the hit is the first match of every pattern, one
  per pattern and in their order; and a pattern that fails to match ends the testing:
  the patterns after it have no influence on the outcome of the loop.
\<close>

lemma all_mode_within_cap:
  assumes "cr_match_mode cr = match_all" and "cr_patterns cr \<noteq> []"
    and "length (cr_patterns cr) \<le> cap"
  shows "((\<exists>hit. match_rule cap t haystack cr = Some hit) \<longleftrightarrow>
            list_all (\<lambda>cp. match_one cp t haystack \<noteq> []) (cr_patterns cr)) \<and>
         (\<forall>hit. match_rule cap t haystack cr = Some hit \<longrightarrow>
            rule_id hit = r_id (cr_rule cr) \<and>
            evidence hit = map (\<lambda>cp. hd (match_one cp t haystack)) (cr_patterns cr) \<and>
            length (evidence hit) = length (cr_patterns cr)) \<and>
         (\<forall>ps cp qs. cr_patterns cr = ps @ cp # qs \<and> match_one cp t haystack = [] \<longrightarrow>
            all_loop cap t haystack (cr_patterns cr) [] = all_loop cap t haystack (ps @ [cp]) [])"
proof -
  note eq = match_rule_all_within_cap [OF assms(1,3,2), of t haystack]
  have fires: "(\<exists>hit. match_rule cap t haystack cr = Some hit) \<longleftrightarrow>
      list_all (\<lambda>cp. match_one cp t haystack \<noteq> []) (cr_patterns cr)"
    by (simp add: eq)
  have hit: "\<forall>hit. match_rule cap t haystack cr = Some hit \<longrightarrow>
      rule_id hit = r_id (cr_rule cr) \<and>
      evidence hit = map (\<lambda>cp. hd (match_one cp t haystack)) (cr_patterns cr) \<and>
      length (evidence hit) = length (cr_patterns cr)"
    by (auto simp: eq to_hit_def split: if_splits)
  have stop: "\<forall>ps cp qs. cr_patterns cr = ps @ cp # qs \<and> match_one cp t haystack = [] \<longrightarrow>
      all_loop cap t haystack (cr_patterns cr) [] = all_loop cap t haystack (ps @ [cp]) []"
  proof (intro allI impI)
    fix ps cp qs
    assume a: "cr_patterns cr = ps @ cp # qs \<and> match_one cp t haystack = []"
    then have e: "cr_patterns cr = ps @ cp # qs" and m: "match_one cp t haystack = []"
      by simp_all
    show "all_loop cap t haystack (cr_patterns cr) [] = all_loop cap t haystack (ps @ [cp]) []"
      unfolding e using m by (rule all_loop_short_circuit)
  qed
  show ?thesis using fires hit stop by (intro conjI)
qed

lemma all_mode_within_cap_example:
  "(\<exists>hit. match_rule 20 (ascii ''ab'') (ascii ''ab'')
      \<lparr>cr_rule = kw_rule (ascii ''R-ALL'') match_all [ascii ''a'', ascii ''b''] True,
        cr_match_mode = match_all,
        cr_patterns =
          [CompiledKeyword \<lparr>p_type = keyword, p_value = ascii ''a'', p_flags = None,
                            p_label = Some (ascii ''keyword'')\<rparr> (ascii ''a''),
           CompiledKeyword \<lparr>p_type = keyword, p_value = ascii ''b'', p_flags = None,
                            p_label = Some (ascii ''keyword'')\<rparr> (ascii ''b'')]\<rparr> = Some hit)"
proof -
  let ?cr = "\<lparr>cr_rule = kw_rule (ascii ''R-ALL'') match_all [ascii ''a'', ascii ''b''] True,
        cr_match_mode = match_all,
        cr_patterns =
          [CompiledKeyword \<lparr>p_type = keyword, p_value = ascii ''a'', p_flags = None,
                            p_label = Some (ascii ''keyword'')\<rparr> (ascii ''a''),
           CompiledKeyword \<lparr>p_type = keyword, p_value = ascii ''b'', p_flags = None,
                            p_label = Some (ascii ''keyword'')\<rparr> (ascii ''b'')]\<rparr>"
  have a: "cr_match_mode ?cr = match_all" "cr_patterns ?cr \<noteq> []"
    "length (cr_patterns ?cr) \<le> 20" by simp_all
  have m: "list_all (\<lambda>cp. match_one cp (ascii ''ab'') (ascii ''ab'') \<noteq> []) (cr_patterns ?cr)"
    by (simp add: find_keyword_def find_keyword_loop_numeral py_find_def ascii_def
        startswith_def)
  have "(\<exists>hit. match_rule 20 (ascii ''ab'') (ascii ''ab'') ?cr = Some hit) \<longleftrightarrow>
      list_all (\<lambda>cp. match_one cp (ascii ''ab'') (ascii ''ab'') \<noteq> []) (cr_patterns ?cr)"
    using all_mode_within_cap [OF a, of "ascii ''ab''" "ascii ''ab''"] by (rule conjunct1)
  from this m show ?thesis by (rule iffD2)
qed

text \<open>
  C3 fails in the code for a rule with more patterns than the cap: once the evidence
  reaches \<open>max_evidence_per_rule\<close> the loop is left with \<open>ok\<close> still true, and the patterns
  after that are never tried. With the default cap of 20, the enabled \<open>all\<close> rule with the
  21 keywords \<open>a\<close>, ..., \<open>u\<close> produces a hit on the text \<open>abcdefghijklmnopqrst\<close>, in which
  \<open>u\<close> does not occur, and the hit holds 20 evidence items for 21 patterns. With a cap
  of 1, the enabled \<open>all\<close> rule with the keywords \<open>a\<close> and \<open>z\<close> produces a hit on the text
  \<open>a\<close>, in which \<open>z\<close> does not occur: the rule fires on its first pattern alone.
\<close>

theorem all_mode_cap_example:
  "(case RuleEngine_init ascii_lib [] [kw_rule (ascii ''R-ALL'') match_all
        (map (\<lambda>c. [c]) (ascii ''abcdefghijklmnopqrstu'')) True] 20 of
      Inl e \<Rightarrow> None
    | Inr eng \<Rightarrow>
        (case fst (match ascii_lib offline_world eng 0 (ascii ''abcdefghijklmnopqrst'') None) of
           Inl e \<Rightarrow> None
         | Inr hits \<Rightarrow> Some (map (\<lambda>h. (rule_id h, map ev_pattern (evidence h))) hits)))
   = Some [(ascii ''R-ALL'', map (\<lambda>c. [c]) (ascii ''abcdefghijklmnopqrst''))] \<and>
   py_find (normalize_for_matching ascii_lib (ascii ''abcdefghijklmnopqrst'')) (ascii ''u'') 0 =
     None \<and>
   (case RuleEngine_init ascii_lib [] [kw_rule (ascii ''R-ONE'') match_all
        [ascii ''a'', ascii ''z''] True] 1 of
      Inl e \<Rightarrow> None
    | Inr eng \<Rightarrow>
        (case fst (match ascii_lib offline_world eng 0 (ascii ''a'') None) of
           Inl e \<Rightarrow> None
         | Inr hits \<Rightarrow> Some (map (\<lambda>h. (rule_id h, map ev_pattern (evidence h))) hits)))
   = Some [(ascii ''R-ONE'', [ascii ''a''])] \<and>
   py_find (normalize_for_matching ascii_lib (ascii ''a'')) (ascii ''z'') 0 = None"
  by (simp add: engine_eval str_eval)

section \<open>Properties of the scorer: deduplication\<close>

lemma dict_set_keys: "fst ` set (dict_set kvs k v) = insert k (fst ` set kvs)"
  by (induction kvs) auto

lemma dict_set_distinct: "distinct (map fst kvs) \<Longrightarrow> distinct (map fst (dict_set kvs k v))"
  by (induction kvs) (auto simp: dict_set_keys)

lemma dict_set_values: "set (map snd (dict_set kvs k v)) \<subseteq> insert v (set (map snd kvs))"
  by (induction kvs) auto

lemma dict_set_keyed:
  "list_all (\<lambda>kv. fst kv = f (snd kv)) kvs \<Longrightarrow>
   list_all (\<lambda>kv. fst kv = f (snd kv)) (dict_set kvs (f v) v)"
  by (induction kvs) auto

lemma unique_fold_distinct:
  "distinct (map fst u) \<Longrightarrow>
   distinct (map fst (foldl (\<lambda>unique h. dict_set unique (rule_id h) h) u hits))"
  by (induction hits arbitrary: u) (simp_all add: dict_set_distinct)

lemma unique_fold_keys:
  "set (map fst (foldl (\<lambda>unique h. dict_set unique (rule_id h) h) u hits)) =
   set (map fst u) \<union> rule_id ` set hits"
  by (induction hits arbitrary: u) (simp_all add: dict_set_keys)

lemma unique_fold_values:
  "set (map snd (foldl (\<lambda>unique h. dict_set unique (rule_id h) h) u hits)) \<subseteq>
   set (map snd u) \<union> set hits"
proof (induction hits arbitrary: u)
  case Nil
  show ?case by simp
next
  case (Cons h hs)
  show ?case
    using Cons.IH [of "dict_set u (rule_id h) h"] dict_set_values [of u "rule_id h" h]
    by auto
qed

lemma unique_fold_keyed:
  "list_all (\<lambda>kv. fst kv = rule_id (snd kv)) u \<Longrightarrow>
   list_all (\<lambda>kv. fst kv = rule_id (snd kv))
     (foldl (\<lambda>unique h. dict_set unique (rule_id h) h) u hits)"
  by (induction hits arbitrary: u) (simp_all add: dict_set_keyed)

lemma unique_hits_ids:
  "map rule_id (unique_hits hits) =
   map fst (foldl (\<lambda>unique h. dict_set unique (rule_id h) h) [] hits)"
  using unique_fold_keyed [of "[]" hits]
  by (simp add: unique_hits_def list_all_iff)

lemma unique_hits_distinct: "distinct (map rule_id (unique_hits hits))"
  by (simp add: unique_hits_ids unique_fold_distinct)

lemma unique_hits_set_ids: "set (map rule_id (unique_hits hits)) = rule_id ` set hits"
  using unique_fold_keys [of "[]" hits] by (simp add: unique_hits_ids)

lemma unique_hits_subset: "set (unique_hits hits) \<subseteq> set hits"
  using unique_fold_values [of "[]" hits] by (simp add: unique_hits_def)

lemma res_hits_score_to_result: "res_hits (score_to_result hits) = unique_hits hits"
  by (simp add: score_to_result_def Let_def)

lemma res_score_score_to_result:
  "res_score (score_to_result hits) = normalize_score (raw_points hits)"
  by (simp add: score_to_result_def Let_def)

lemma distinct_count_le1:
  "distinct (map f xs) \<Longrightarrow> length (filter (\<lambda>x. f x = k) xs) \<le> 1"
  by (induction xs) (auto simp: filter_empty_conv image_iff)

text \<open>
  C4: whatever hits the scorer is given, the hits of its result carry pairwise different
  rule ids, so any rule id \<open>rid\<close> occurs at most once; they are hits of the input and
  cover every rule id of the input; \<open>raw_points\<close> is the sum of their weights, and the
  score is computed from it.
\<close>

theorem score_to_result_dedup:
  "distinct (map rule_id (res_hits (score_to_result hits))) \<and>
   length (filter (\<lambda>h. rule_id h = rid) (res_hits (score_to_result hits))) \<le> 1 \<and>
   rule_id ` set (res_hits (score_to_result hits)) = rule_id ` set hits \<and>
   set (res_hits (score_to_result hits)) \<subseteq> set hits \<and>
   raw_points hits = sum_list (map weight (res_hits (score_to_result hits))) \<and>
   res_score (score_to_result hits) = normalize_score (raw_points hits)"
  using unique_hits_distinct [of hits] unique_hits_set_ids [of hits] unique_hits_subset [of hits]
    distinct_count_le1 [of rule_id "unique_hits hits" rid]
  by (simp add: res_hits_score_to_result res_score_score_to_result raw_points_def)

text \<open>A rule that is reported twice counts once.\<close>

theorem score_to_result_dedup_witness:
  "\<forall>h. res_hits (score_to_result [h, h]) = [h] \<and> raw_points [h, h] = weight h \<and>
       length (filter (\<lambda>x. rule_id x = rule_id h) (res_hits (score_to_result [h, h]))) \<le> 1"
proof
  fix h
  show "res_hits (score_to_result [h, h]) = [h] \<and> raw_points [h, h] = weight h \<and>
       length (filter (\<lambda>x. rule_id x = rule_id h) (res_hits (score_to_result [h, h]))) \<le> 1"
    using score_to_result_dedup [of "[h, h]" "rule_id h"]
    by (simp add: res_hits_score_to_result raw_points_def unique_hits_def)
qed

section \<open>Properties of the scorer: the score formula\<close>


lemma exp_minus_one_lower: "(103 / 280 :: real) < exp (- 1)"
proof -
  have s: "(\<Sum>m<8. ((- 1 :: real) ^ m) / fact m) = 103 / 280"
    by (simp add: lessThan_Suc eval_nat_numeral fact_reduce)
  obtain t :: real where
    "exp (- 1) = (\<Sum>m<8. ((- 1) ^ m) / fact m) + (exp t / fact 8) * (- 1) ^ 8"
    using Maclaurin_exp_le [of "- 1" 8] by blast
  moreover have "0 < (exp t / fact 8) * (- 1 :: real) ^ 8" by simp
  ultimately show ?thesis using s by linarith
qed

lemma exp_minus_one_upper: "exp (- 1) < (53 / 144 :: real)"
proof -
  have s: "(\<Sum>m<7. ((- 1 :: real) ^ m) / fact m) = 53 / 144"
    by (simp add: lessThan_Suc eval_nat_numeral fact_reduce)
  obtain t :: real where
    "exp (- 1) = (\<Sum>m<7. ((- 1) ^ m) / fact m) + (exp t / fact 7) * (- 1) ^ 7"
    using Maclaurin_exp_le [of "- 1" 7] by blast
  moreover have "(exp t / fact 7) * (- 1 :: real) ^ 7 < 0" by simp
  ultimately show ?thesis using s by linarith
qed

lemma exp_minus_two_bounds: "(135 / 1000 :: real) < exp (- 2) \<and> exp (- 2) < (136 / 1000 :: real)"
proof -
  have e: "exp (- 2 :: real) = exp (- 1) * exp (- 1)"
    by (simp flip: exp_add)
  have "(103 / 280 :: real) * (103 / 280) < exp (- 1) * exp (- 1)"
    using exp_minus_one_lower by (intro mult_strict_mono) simp_all
  moreover have "exp (- 1) * exp (- 1) < (53 / 144 :: real) * (53 / 144)"
    using exp_minus_one_upper by (intro mult_strict_mono) simp_all
  ultimately show ?thesis unfolding e by linarith
qed

lemma py_round_between:
  assumes "of_int n - 1 / 2 < x" and "x < of_int n + 1 / 2"
  shows "py_round x = n"
proof (cases "x < of_int n")
  case True
  then have "\<lfloor>x\<rfloor> = n - 1" using assms by (simp add: floor_unique)
  then show ?thesis using assms True by (simp add: py_round_def Let_def)
next
  case False
  then have "\<lfloor>x\<rfloor> = n" using assms by (simp add: floor_unique)
  then show ?thesis using assms False by (simp add: py_round_def Let_def)
qed

lemma normalize_score_35: "normalize_score 35 = 63"
proof -
  have "py_round (100 * (1 - exp (- 1))) = 63"
    using exp_minus_one_lower exp_minus_one_upper by (intro py_round_between) simp_all
  then show ?thesis by (simp add: normalize_score_def)
qed

lemma normalize_score_70: "normalize_score 70 = 86"
proof -
  have "py_round (100 * (1 - exp (- 2))) = 86"
    using exp_minus_two_bounds by (intro py_round_between) simp_all
  then show ?thesis by (simp add: normalize_score_def)
qed

lemma normalize_score_range: "0 \<le> normalize_score r \<and> normalize_score r \<le> 100"
  by (simp add: normalize_score_def Let_def)

text \<open>
  C5: the score is \<open>round (100 * (1 - exp (- raw_points / 35)))\<close>, with negative
  \<open>raw_points\<close> read as 0, clamped to the range from 0 to 100. For \<open>raw_points = 35\<close> it
  is 63, which is severity medium, and for \<open>raw_points = 70\<close> it is 86, which is
  severity high; the severity of a score is high from 70, medium from 30 and low below.
\<close>

theorem normalize_score_examples:
  "normalize_score r =
     max 0 (min 100 (py_round (100 * (1 - exp (- real_of_int (max 0 r) / 35))))) \<and>
   0 \<le> normalize_score r \<and> normalize_score r \<le> 100 \<and>
   normalize_score 35 = 63 \<and> severity_from_score (normalize_score 35) = medium \<and>
   normalize_score 70 = 86 \<and> severity_from_score (normalize_score 70) = high \<and>
   severity_from_score s = (if 70 \<le> s then high else if 30 \<le> s then medium else low)"
  using normalize_score_range [of r]
  by (simp add: normalize_score_35 normalize_score_70 severity_from_score_def)
    (simp add: normalize_score_def Let_def)

section \<open>Properties of the scorer: severity and action\<close>














lemma ACTION_PRIORITY_inj: "ACTION_PRIORITY a = ACTION_PRIORITY b \<Longrightarrow> a = b"
  by (cases a; cases b) simp_all




section \<open>Properties of the rule engine: loading a rule pack\<close>






























text \<open>
  An exception of \<open>re.compile\<close> that is not an \<open>re.error\<close> leaves the loader as it is,
  without a rule id.
\<close>

lemma from_yaml_uncaught_exception:
  assumes "lib_re_compile L (ascii ''a{4294967296}'') {IGNORECASE, MULTILINE} = ReRaises"
  shows "from_yaml L key
     (Parsed (YamlList [ValidRule
        \<lparr>r_id = ascii ''R-RX'', r_title = ascii ''Example rule'', r_weight = 10,
          r_severity = medium,
          r_when = \<lparr>when_match = match_any, when_any_keywords = [],
                    when_regex = [ascii ''a{4294967296}''], when_patterns = []\<rparr>,
          r_explain = ascii ''An example'', r_action = report, r_tags = [],
          r_enabled = True\<rparr>])) m = Inl UncaughtException"
proof -
  have s: "py_strip (ascii ''a{4294967296}'') = ascii ''a{4294967296}''"
    by (simp add: ascii_def py_strip_def py_isspace_def)
  have n: "ascii ''a{4294967296}'' \<noteq> []" by (simp add: ascii_def)
  show ?thesis
    using assms n
    by (simp add: from_yaml_def RuleEngine_init_def compile_rule_def rule_patterns_def s
        compile_flags_def)
qed

section \<open>Properties of the reputation rule: a failing lookup\<close>




lemma map_of_dict_set: "map_of (dict_set kvs k v) k = Some v"
  by (induction kvs) auto

lemma set_dict_set: "set (dict_set kvs k v) \<subseteq> insert (k, v) (set kvs)"
  by (induction kvs) auto

lemma no_intel_for_subset:
  "no_intel_for K c \<Longrightarrow> set (c_data c') \<subseteq> set (c_data c) \<Longrightarrow> no_intel_for K c'"
  by (auto simp: no_intel_for_def list_all_iff)

lemma no_intel_for_get:
  assumes "no_intel_for K c" and "key \<in> K"
  shows "fst (TTLCache_get c key now) = None \<and> no_intel_for K (snd (TTLCache_get c key now)) \<and>
         c_ttl (snd (TTLCache_get c key now)) = c_ttl c"
proof (cases "map_of (c_data c) key")
  case None
  then show ?thesis using assms by (simp add: TTLCache_get_def)
next
  case (Some ent)
  then have "(key, ent) \<in> set (c_data c)" by (rule map_of_SomeD)
  then have v: "ent_value ent = None" using assms by (auto simp: no_intel_for_def list_all_iff)
  have "no_intel_for K (c\<lparr>c_data := dict_pop (c_data c) key\<rparr>)"
    using assms(1) by (rule no_intel_for_subset) (auto simp: dict_pop_def)
  then show ?thesis using Some assms(1) v by (simp add: TTLCache_get_def)
qed

lemma purge_subset: "set (c_data (TTLCache_purge c now n)) \<subseteq> set (c_data c)"
proof -
  let ?live = "filter (\<lambda>kv. now < ent_expires_at (snd kv)) (c_data c)"
  have "set (drop (length ?live - n) ?live) \<subseteq> set ?live" by (rule set_drop_subset)
  moreover have "set ?live \<subseteq> set (c_data c)" by simp
  ultimately show ?thesis by (auto simp: TTLCache_purge_def Let_def)
qed

lemma c_ttl_purge: "c_ttl (TTLCache_purge c now n) = c_ttl c"
  by (simp add: TTLCache_purge_def Let_def)

lemma no_intel_for_set: 
  assumes "no_intel_for K c"
  shows "no_intel_for K (TTLCache_set c key None now)"
proof -
  let ?c1 = "if c_max_items c \<le> length (c_data c)
             then TTLCache_purge c now (c_max_items c div 2) else c"
  let ?ent = "\<lparr>ent_value = None, ent_expires_at = now + of_int (c_ttl ?c1)\<rparr>"
  have s1: "set (c_data ?c1) \<subseteq> set (c_data c)" using purge_subset [of c now] by simp
  have "set (dict_set (c_data ?c1) key ?ent) \<subseteq> insert (key, ?ent) (set (c_data c))"
    using set_dict_set [of "c_data ?c1" key ?ent] s1 by blast
  then have "list_all (\<lambda>kv. ent_value (snd kv) = None)
      (filter (\<lambda>kv. fst kv \<in> K) (dict_set (c_data ?c1) key ?ent))"
    using assms by (auto simp: no_intel_for_def list_all_iff)
  then show ?thesis by (simp add: TTLCache_set_def Let_def no_intel_for_def)
qed

lemma TTLCache_set_entry:
  "map_of (c_data (TTLCache_set c key v now)) key =
     Some \<lparr>ent_value = v, ent_expires_at = now + of_int (c_ttl c)\<rparr>"
  by (simp add: TTLCache_set_def Let_def map_of_dict_set c_ttl_purge)

lemma lookup_domain_failure:
  assumes "svc_enabled svc" and "no_intel_for K (svc_cache svc)" and "vt_key L d \<in> K"
    and "w_http W (py_lower L (py_strip d)) = RequestFailed"
  shows "fst (lookup_domain L W svc k d) = Inr None \<and>
         svc_enabled (fst (snd (lookup_domain L W svc k d))) \<and>
         no_intel_for K (svc_cache (fst (snd (lookup_domain L W svc k d)))) \<and>
         (py_lower L (py_strip d) = [] \<or>
          map_of (c_data (svc_cache (fst (snd (lookup_domain L W svc k d))))) (vt_key L d) =
            Some \<lparr>ent_value = None,
                  ent_expires_at = w_clock W (Suc k) + of_int (c_ttl (svc_cache svc))\<rparr>)"
proof (cases "py_lower L (py_strip d) = []")
  case True
  then show ?thesis using assms by (simp add: lookup_domain_def)
next
  case False
  let ?key = "ascii ''vt:domain:'' @ py_lower L (py_strip d)"
  let ?got = "TTLCache_get (svc_cache svc) ?key (w_clock W k)"
  have kk: "?key \<in> K" using assms(3) by (simp add: vt_key_def)
  have g: "fst ?got = None" "no_intel_for K (snd ?got)"
    "c_ttl (snd ?got) = c_ttl (svc_cache svc)"
    using no_intel_for_get [OF assms(2) kk, of "w_clock W k"] by simp_all
  show ?thesis
    using False assms(1,4) g no_intel_for_set [OF g(2), of ?key "w_clock W (Suc k)"]
    by (simp add: lookup_domain_def Let_def TTLCache_set_entry vt_key_def)
qed

lemma flagged_loop_failure:
  assumes "svc_enabled svc" and "no_intel_for K (svc_cache svc)"
    and "vt_key L ` set ds \<subseteq> K"
    and "\<forall>d \<in> set ds. w_http W (py_lower L (py_strip d)) = RequestFailed"
  shows "fst (flagged_loop L W svc k ds) = Inr []"
  using assms
proof (induction ds arbitrary: svc k)
  case Nil
  show ?case by simp
next
  case (Cons d ds)
  obtain r svc1 k1 where l: "lookup_domain L W svc k d = (r, svc1, k1)"
    by (cases "lookup_domain L W svc k d") auto
  have f: "w_http W (py_lower L (py_strip d)) = RequestFailed" using Cons.prems(4) by simp
  have kd: "vt_key L d \<in> K" using Cons.prems(3) by simp
  from lookup_domain_failure [OF Cons.prems(1,2) kd f, of k] l
  have r: "r = Inr None" "svc_enabled svc1" "no_intel_for K (svc_cache svc1)" by simp_all
  have "fst (flagged_loop L W svc1 k1 ds) = Inr []"
    using Cons.IH [OF r(2,3)] Cons.prems(3,4) by simp
  then show ?case using l r(1)
    by (cases "flagged_loop L W svc1 k1 ds") (simp add: split_def)
qed

lemma context_hits_disabled:
  "svc_enabled svc = False \<Longrightarrow>
   fst (context_hits L W svc k t haystack ctx) =
     Inr (shortener_hits L t haystack ctx @ punycode_hits L t haystack ctx @
          subdomain_hits L t haystack ctx)"
  by (simp add: context_hits_def)

lemma context_hits_failure:
  assumes "svc_enabled svc"
    and "no_intel_for (vt_key L ` set (ctx_domains ctx)) (svc_cache svc)"
    and "\<forall>d \<in> set (ctx_domains ctx). w_http W (py_lower L (py_strip d)) = RequestFailed"
  shows "fst (context_hits L W svc k t haystack ctx) =
     Inr (shortener_hits L t haystack ctx @ punycode_hits L t haystack ctx @
          subdomain_hits L t haystack ctx)"
proof -
  have "fst (flagged_loop L W svc k (ctx_domains ctx)) = Inr []"
    using assms by (intro flagged_loop_failure) auto
  then show ?thesis using assms(1)
    by (cases "flagged_loop L W svc k (ctx_domains ctx)")
      (simp add: context_hits_def reputation_hits_def)
qed

lemma static_hits_ids:
  "rule_id ` set (shortener_hits L t haystack ctx @ punycode_hits L t haystack ctx @
                   subdomain_hits L t haystack ctx) \<subseteq>
   {ascii ''CTX-URL-SHORTENER'', ascii ''CTX-URL-PUNYCODE'', ascii ''CTX-URL-SUBDOMAINS''}"
  by (auto simp: shortener_hits_def punycode_hits_def subdomain_hits_def Let_def
      split: option.splits if_splits)

lemma reputation_id_not_static:
  "ascii ''CTX-URL-REPUTATION'' \<notin>
   {ascii ''CTX-URL-SHORTENER'', ascii ''CTX-URL-PUNYCODE'', ascii ''CTX-URL-SUBDOMAINS''}"
  by (simp add: ascii_def)

lemma match_fst:
  "fst (match L W eng k t (Some ctx)) =
     (if t = [] then Inr []
      else (case fst (context_hits L W (eng_reputation eng) k t (normalize_for_matching L t) ctx) of
              Inl e \<Rightarrow> Inl e
            | Inr chits \<Rightarrow> Inr (yaml_hits eng t (normalize_for_matching L t) @ chits)))"
  by (cases "context_hits L W (eng_reputation eng) k t (normalize_for_matching L t) ctx")
    (auto simp: match_def Let_def split: sum.splits)

lemma analyze_fst:
  "fst (analyze L W eng k subject body from_email reply_to headers_raw attachments) =
     (case fst (match L W eng k (join_message_parts subject body from_email reply_to headers_raw attachments)
                  (Some (context_of (extract_all L (join_message_parts subject body from_email reply_to headers_raw attachments))))) of
        Inl e \<Rightarrow> Inl e
      | Inr hits \<Rightarrow> Inr (score_to_result hits))"
  by (cases "match L W eng k (join_message_parts subject body from_email reply_to headers_raw attachments)
                  (Some (context_of (extract_all L (join_message_parts subject body from_email reply_to headers_raw attachments))))")
    (auto simp: analyze_def Let_def context_of_def split: sum.splits)


lemma yaml_hits_reputation_update:
  "yaml_hits (eng\<lparr>eng_reputation := svc\<rparr>) t haystack = yaml_hits eng t haystack"
  by (simp add: yaml_hits_def)

text \<open>
  A request that fails inside the \<open>try\<close> block of \<open>lookup_domain\<close> is handled. Let the
  reputation service be enabled, let its cache hold no reputation result for the domains
  of the context, and let the request fail in this way for every one of them. Then every
  lookup returns \<open>None\<close> and leaves a cache entry with the value \<open>None\<close> under the key of
  the domain, expiring one time-to-live after the clock reading of the store; the context
  rules produce hits and none of them is \<open>CTX-URL-REPUTATION\<close>; \<open>match\<close> returns hits,
  the same as with the service disabled; and \<open>analyze\<close> on a message with this text and
  context returns a result, the same as with the service disabled.
\<close>

lemma request_failure_no_intelligence:
  assumes en: "svc_enabled (eng_reputation eng)"
    and cache: "no_intel_for (vt_key L ` set (ctx_domains ctx)) (svc_cache (eng_reputation eng))"
    and fail: "\<forall>d \<in> set (ctx_domains ctx). w_http W (py_lower L (py_strip d)) = RequestFailed"
  shows "(\<forall>d \<in> set (ctx_domains ctx).
            fst (lookup_domain L W (eng_reputation eng) k d) = Inr None \<and>
            (py_lower L (py_strip d) = [] \<or>
             map_of (c_data (svc_cache (fst (snd (lookup_domain L W (eng_reputation eng) k d)))))
               (vt_key L d) =
             Some \<lparr>ent_value = None,
                   ent_expires_at =
                     w_clock W (Suc k) + of_int (c_ttl (svc_cache (eng_reputation eng)))\<rparr>)) \<and>
         (\<exists>hits. fst (context_hits L W (eng_reputation eng) k t haystack ctx) = Inr hits \<and>
                 ascii ''CTX-URL-REPUTATION'' \<notin> rule_id ` set hits) \<and>
         (\<exists>hits. fst (match L W eng k t (Some ctx)) = Inr hits) \<and>
         fst (match L W eng k t (Some ctx)) =
           fst (match L W (eng\<lparr>eng_reputation := (eng_reputation eng)\<lparr>svc_enabled := False\<rparr>\<rparr>) k t
                  (Some ctx)) \<and>
         (t = join_message_parts subject body from_email reply_to headers_raw attachments \<and>
          ctx = context_of (extract_all L t) \<longrightarrow>
            (\<exists>res. fst (analyze L W eng k subject body from_email reply_to headers_raw
                           attachments) = Inr res) \<and>
            fst (analyze L W eng k subject body from_email reply_to headers_raw attachments) =
              fst (analyze L W (eng\<lparr>eng_reputation := (eng_reputation eng)\<lparr>svc_enabled := False\<rparr>\<rparr>)
                     k subject body from_email reply_to headers_raw attachments))"
proof -
  let ?svc = "eng_reputation eng"
  let ?off = "eng\<lparr>eng_reputation := ?svc\<lparr>svc_enabled := False\<rparr>\<rparr>"
  let ?static = "\<lambda>h. shortener_hits L t h ctx @ punycode_hits L t h ctx @ subdomain_hits L t h ctx"
  have look: "\<forall>d \<in> set (ctx_domains ctx).
      fst (lookup_domain L W ?svc k d) = Inr None \<and>
      (py_lower L (py_strip d) = [] \<or>
       map_of (c_data (svc_cache (fst (snd (lookup_domain L W ?svc k d))))) (vt_key L d) =
       Some \<lparr>ent_value = None,
             ent_expires_at = w_clock W (Suc k) + of_int (c_ttl (svc_cache ?svc))\<rparr>)"
  proof
    fix d
    assume d: "d \<in> set (ctx_domains ctx)"
    then have kd: "vt_key L d \<in> vt_key L ` set (ctx_domains ctx)" by simp
    have f: "w_http W (py_lower L (py_strip d)) = RequestFailed" using fail d by simp
    from lookup_domain_failure [OF en cache kd f, of k]
    show "fst (lookup_domain L W ?svc k d) = Inr None \<and>
      (py_lower L (py_strip d) = [] \<or>
       map_of (c_data (svc_cache (fst (snd (lookup_domain L W ?svc k d))))) (vt_key L d) =
       Some \<lparr>ent_value = None,
             ent_expires_at = w_clock W (Suc k) + of_int (c_ttl (svc_cache ?svc))\<rparr>)"
      by simp
  qed
  have on: "\<And>h. fst (context_hits L W ?svc k t h ctx) = Inr (?static h)"
    using en cache fail by (rule context_hits_failure)
  have off: "\<And>h. fst (context_hits L W (?svc\<lparr>svc_enabled := False\<rparr>) k t h ctx) = Inr (?static h)"
    by (rule context_hits_disabled) simp
  have noid: "ascii ''CTX-URL-REPUTATION'' \<notin> rule_id ` set (?static haystack)"
    using static_hits_ids [of L t haystack ctx] reputation_id_not_static by blast
  have m_on: "fst (match L W eng k t (Some ctx)) =
      (if t = [] then Inr []
       else Inr (yaml_hits eng t (normalize_for_matching L t) @
                 ?static (normalize_for_matching L t)))"
    by (simp add: match_fst on)
  have m_off: "fst (match L W ?off k t (Some ctx)) =
      (if t = [] then Inr []
       else Inr (yaml_hits eng t (normalize_for_matching L t) @
                 ?static (normalize_for_matching L t)))"
    by (simp add: match_fst off yaml_hits_reputation_update)
  have m_eq: "fst (match L W eng k t (Some ctx)) = fst (match L W ?off k t (Some ctx))"
    by (simp only: m_on m_off)
  have m_ex: "\<exists>hits. fst (match L W eng k t (Some ctx)) = Inr hits"
    by (simp add: m_on)
  have an: "t = join_message_parts subject body from_email reply_to headers_raw attachments \<and>
      ctx = context_of (extract_all L t) \<longrightarrow>
      (\<exists>res. fst (analyze L W eng k subject body from_email reply_to headers_raw
                     attachments) = Inr res) \<and>
      fst (analyze L W eng k subject body from_email reply_to headers_raw attachments) =
        fst (analyze L W ?off k subject body from_email reply_to headers_raw attachments)"
  proof
    assume a: "t = join_message_parts subject body from_email reply_to headers_raw attachments \<and>
      ctx = context_of (extract_all L t)"
    have e1: "fst (analyze L W eng k subject body from_email reply_to headers_raw attachments) =
        (case fst (match L W eng k t (Some ctx)) of
           Inl e \<Rightarrow> Inl e | Inr hits \<Rightarrow> Inr (score_to_result hits))"
      using a by (simp add: analyze_fst)
    have e2: "fst (analyze L W ?off k subject body from_email reply_to headers_raw attachments) =
        (case fst (match L W ?off k t (Some ctx)) of
           Inl e \<Rightarrow> Inl e | Inr hits \<Rightarrow> Inr (score_to_result hits))"
      using a by (simp add: analyze_fst)
    obtain hits where h: "fst (match L W eng k t (Some ctx)) = Inr hits" using m_ex by blast
    have "fst (analyze L W eng k subject body from_email reply_to headers_raw attachments) =
        Inr (score_to_result hits)"
      by (simp add: e1 h)
    moreover have "fst (analyze L W ?off k subject body from_email reply_to headers_raw attachments) =
        Inr (score_to_result hits)"
      using h m_eq by (simp add: e2)
    ultimately show "(\<exists>res. fst (analyze L W eng k subject body from_email reply_to headers_raw
                     attachments) = Inr res) \<and>
      fst (analyze L W eng k subject body from_email reply_to headers_raw attachments) =
        fst (analyze L W ?off k subject body from_email reply_to headers_raw attachments)"
      by simp
  qed
  have ctxh: "\<exists>hits. fst (context_hits L W ?svc k t haystack ctx) = Inr hits \<and>
                 ascii ''CTX-URL-REPUTATION'' \<notin> rule_id ` set hits"
    using on [of haystack] noid by blast
  show ?thesis using look ctxh m_ex m_eq an by blast
qed

text \<open>
  A message whose only link goes to \<open>bad.example\<close>.
\<close>

lemma example_message_text:
  "join_message_parts (Some (ascii ''Hi'')) (Some (ascii ''Go to https://bad.example/login''))
     None None None None =
   ascii ''Subject: Hi'' @ [10] @ ascii ''Body:'' @ [10] @ ascii ''Go to https://bad.example/login''"
  by (simp add: join_message_parts_def truthy_def str_eval)

lemma example_message_urls:
  "extract_urls L (ascii ''Subject: Hi'' @ [10] @ ascii ''Body:'' @ [10] @
      ascii ''Go to https://bad.example/login'') = [ascii ''https://bad.example/login'']"
proof -
  have f: "url_finditer L (ascii ''Subject: Hi'' @ [10] @ ascii ''Body:'' @ [10] @
      ascii ''Go to https://bad.example/login'') = [ascii ''https://bad.example/login'']"
    by (simp add: ascii_def url_finditer_def url_match_def is_word_def url_body_char_def
        py_isspace_def startswith_def)
  have c: "clean_url L (ascii ''https://bad.example/login'') = ascii ''https://bad.example/login''"
    by (simp add: clean_url_def str_eval WRAPPING_CHARS_def TRAILING_PUNCT_def
        strip_balanced_wrappers_def urlsplit_netloc_def ascii_alpha_def scheme_char_def)
  have ne: "ascii ''https://bad.example/login'' \<noteq> []"
    "ascii ''Subject: Hi'' @ [10] @ ascii ''Body:'' @ [10] @
      ascii ''Go to https://bad.example/login'' \<noteq> []"
    by (simp_all add: ascii_def)
  show ?thesis unfolding extract_urls_def f using ne by (simp add: c del: append.simps)
qed

lemma example_message_domains:
  "extract_domains L [ascii ''https://bad.example/login''] = [ascii ''bad.example'']"
  by (simp add: extract_domains_def domain_from_url_def urlsplit_netloc_def hostname_def
      ascii_alpha_def scheme_char_def str_eval)

lemma example_message_context:
  "ctx_domains (context_of (extract_all L
     (join_message_parts (Some (ascii ''Hi'')) (Some (ascii ''Go to https://bad.example/login''))
        None None None None))) = [ascii ''bad.example'']"
  unfolding example_message_text
  by (simp add: context_of_def extract_all_def Let_def example_message_urls
      example_message_domains del: append.simps)

lemma request_failure_example:
  "(\<exists>res. fst (analyze ascii_lib \<lparr>w_clock = real, w_http = (\<lambda>d. RequestFailed)\<rparr>
      \<lparr>eng_rules = [], eng_max_evidence_per_rule = 20, eng_compiled = [],
        eng_reputation = \<lparr>svc_api_key = ascii ''key'', svc_enabled = True,
                           svc_cache = TTLCache_init 3600 2000\<rparr>\<rparr>
      0 (Some (ascii ''Hi'')) (Some (ascii ''Go to https://bad.example/login''))
      None None None None) = Inr res) \<and>
   fst (lookup_domain ascii_lib \<lparr>w_clock = real, w_http = (\<lambda>d. RequestFailed)\<rparr>
      \<lparr>svc_api_key = ascii ''key'', svc_enabled = True, svc_cache = TTLCache_init 3600 2000\<rparr>
      0 (ascii ''bad.example'')) = Inr None"
proof -
  let ?W = "\<lparr>w_clock = real, w_http = (\<lambda>d. RequestFailed)\<rparr>"
  let ?svc = "\<lparr>svc_api_key = ascii ''key'', svc_enabled = True,
               svc_cache = TTLCache_init 3600 2000\<rparr>"
  let ?eng = "\<lparr>eng_rules = [], eng_max_evidence_per_rule = 20, eng_compiled = [],
               eng_reputation = ?svc\<rparr>"
  let ?t = "join_message_parts (Some (ascii ''Hi''))
              (Some (ascii ''Go to https://bad.example/login'')) None None None None"
  let ?ctx = "context_of (extract_all ascii_lib ?t)"
  have en: "svc_enabled (eng_reputation ?eng)" by simp
  have cache: "no_intel_for (vt_key ascii_lib ` set (ctx_domains ?ctx))
                 (svc_cache (eng_reputation ?eng))"
    by (simp add: no_intel_for_def TTLCache_init_def)
  have fail: "\<forall>d \<in> set (ctx_domains ?ctx).
      w_http ?W (py_lower ascii_lib (py_strip d)) = RequestFailed" by simp
  note main = request_failure_no_intelligence [OF en cache fail, of 0 ?t "[]"
      "Some (ascii ''Hi'')" "Some (ascii ''Go to https://bad.example/login'')" None None None None]
  have d: "ascii ''bad.example'' \<in> set (ctx_domains ?ctx)"
    by (simp add: example_message_context)
  have l: "fst (lookup_domain ascii_lib ?W (eng_reputation ?eng) 0 (ascii ''bad.example'')) =
      Inr None"
    using main d by blast
  have a: "\<exists>res. fst (analyze ascii_lib ?W ?eng 0 (Some (ascii ''Hi''))
      (Some (ascii ''Go to https://bad.example/login'')) None None None None) = Inr res"
    using main by blast
  show ?thesis using l a by simp
qed


text \<open>
  A response from which the statistics cannot be read leaves \<open>lookup_domain\<close> as an
  exception, and the exception leaves the context rules, \<open>match\<close> and \<open>analyze\<close>.
\<close>

lemma lookup_domain_malformed:
  assumes "svc_enabled svc" and "py_lower L (py_strip d) \<noteq> []"
    and "fst (TTLCache_get (svc_cache svc) (vt_key L d) (w_clock W k)) = None"
    and "w_http W (py_lower L (py_strip d)) = MalformedBody"
  shows "fst (lookup_domain L W svc k d) = Inl UncaughtError"
  using assms by (simp add: lookup_domain_def Let_def vt_key_def)

lemma context_hits_abort:
  assumes "svc_enabled svc" and "ctx_domains ctx = d # ds"
    and "fst (lookup_domain L W svc k d) = Inl e"
  shows "fst (context_hits L W svc k t haystack ctx) = Inl e"
  using assms
  by (cases "lookup_domain L W svc k d") (simp add: context_hits_def)

lemma analyze_abort:
  assumes "join_message_parts subject body from_email reply_to headers_raw attachments \<noteq> []"
    and "\<And>haystack. fst (context_hits L W (eng_reputation eng) k
           (join_message_parts subject body from_email reply_to headers_raw attachments) haystack
           (context_of (extract_all L
             (join_message_parts subject body from_email reply_to headers_raw attachments)))) =
         Inl e"
  shows "fst (analyze L W eng k subject body from_email reply_to headers_raw attachments) = Inl e"
  using assms by (simp add: analyze_fst match_fst)

lemma example_message_context_full:
  "context_of (extract_all ascii_lib
     (join_message_parts (Some (ascii ''Hi'')) (Some (ascii ''Go to https://bad.example/login''))
        None None None None)) =
   \<lparr>ctx_urls = [ascii ''https://bad.example/login''], ctx_domains = [ascii ''bad.example''],
    ctx_emails = [], ctx_phones = []\<rparr>"
  unfolding example_message_text
  by (simp add: context_of_def extract_all_def Let_def example_message_urls
      example_message_domains extract_emails_def extract_phones_def ascii_lib_def
      del: append.simps)

lemma example_lookup_malformed:
  "fst (lookup_domain ascii_lib \<lparr>w_clock = real, w_http = (\<lambda>d. MalformedBody)\<rparr>
      (UrlReputationService_init (ascii ''key'')) 0 (ascii ''bad.example'')) = Inl UncaughtError \<and>
   svc_cache (fst (snd (lookup_domain ascii_lib \<lparr>w_clock = real, w_http = (\<lambda>d. MalformedBody)\<rparr>
      (UrlReputationService_init (ascii ''key'')) 0 (ascii ''bad.example'')))) =
     TTLCache_init 3600 2000"
  by (simp add: lookup_domain_def UrlReputationService_init_def TTLCache_init_def
      TTLCache_get_def str_eval ascii_lib_def Let_def)

lemma example_analyze_malformed:
  "(case RuleEngine_init ascii_lib (ascii ''key'')
          [kw_rule (ascii ''R-LOGIN'') match_any [ascii ''login''] True] 20 of
      Inl e \<Rightarrow> None
    | Inr eng \<Rightarrow>
        Some (fst (analyze ascii_lib \<lparr>w_clock = real, w_http = (\<lambda>d. MalformedBody)\<rparr> eng 0
                (Some (ascii ''Hi'')) (Some (ascii ''Go to https://bad.example/login''))
                None None None None))) = Some (Inl UncaughtError)"
proof -
  let ?W = "\<lparr>w_clock = real, w_http = (\<lambda>d. MalformedBody)\<rparr>"
  let ?t = "join_message_parts (Some (ascii ''Hi''))
              (Some (ascii ''Go to https://bad.example/login'')) None None None None"
  let ?svc = "UrlReputationService_init (ascii ''key'')"
  obtain eng where e: "RuleEngine_init ascii_lib (ascii ''key'')
      [kw_rule (ascii ''R-LOGIN'') match_any [ascii ''login''] True] 20 = Inr eng"
    and r: "eng_reputation eng = ?svc"
    by (simp add: RuleEngine_init_def kw_rule_def compile_rule_def rule_patterns_def str_eval)
  have en: "svc_enabled ?svc" by (simp add: UrlReputationService_init_def str_eval)
  have ne: "?t \<noteq> []" by (simp add: example_message_text)
  have d: "ctx_domains (context_of (extract_all ascii_lib ?t)) = ascii ''bad.example'' # []"
    by (rule example_message_context)
  have l: "fst (lookup_domain ascii_lib ?W ?svc 0 (ascii ''bad.example'')) = Inl UncaughtError"
    using example_lookup_malformed by (rule conjunct1)
  have c: "\<And>haystack. fst (context_hits ascii_lib ?W (eng_reputation eng) 0 ?t haystack
      (context_of (extract_all ascii_lib ?t))) = Inl UncaughtError"
    unfolding r using en d l by (rule context_hits_abort)
  have "fst (analyze ascii_lib ?W eng 0 (Some (ascii ''Hi''))
      (Some (ascii ''Go to https://bad.example/login'')) None None None None) = Inl UncaughtError"
    using ne c by (rule analyze_abort)
  then show ?thesis by (simp add: e)
qed

lemma example_static_hits:
  "shortener_hits ascii_lib t haystack
     \<lparr>ctx_urls = [ascii ''https://bad.example/login''], ctx_domains = [ascii ''bad.example''],
      ctx_emails = [], ctx_phones = []\<rparr> = [] \<and>
   punycode_hits ascii_lib t haystack
     \<lparr>ctx_urls = [ascii ''https://bad.example/login''], ctx_domains = [ascii ''bad.example''],
      ctx_emails = [], ctx_phones = []\<rparr> = [] \<and>
   subdomain_hits ascii_lib t haystack
     \<lparr>ctx_urls = [ascii ''https://bad.example/login''], ctx_domains = [ascii ''bad.example''],
      ctx_emails = [], ctx_phones = []\<rparr> = []"
  by (simp add: shortener_hits_def punycode_hits_def subdomain_hits_def is_shortener_domain_def
      is_punycode_domain_def subdomain_count_def SHORTENER_DOMAINS_def str_eval ascii_lib_def
      py_find_def Let_def)

lemma example_analyze_disabled:
  "(case RuleEngine_init ascii_lib []
          [kw_rule (ascii ''R-LOGIN'') match_any [ascii ''login''] True] 20 of
      Inl e \<Rightarrow> None
    | Inr eng \<Rightarrow>
        (case fst (analyze ascii_lib \<lparr>w_clock = real, w_http = (\<lambda>d. MalformedBody)\<rparr> eng 0
                (Some (ascii ''Hi'')) (Some (ascii ''Go to https://bad.example/login''))
                None None None None) of
           Inl e \<Rightarrow> None
         | Inr res \<Rightarrow> Some (map rule_id (res_hits res)))) = Some [ascii ''R-LOGIN'']"
proof -
  let ?W = "\<lparr>w_clock = real, w_http = (\<lambda>d. MalformedBody)\<rparr>"
  let ?t = "ascii ''Subject: Hi'' @ [10] @ ascii ''Body:'' @ [10] @
            ascii ''Go to https://bad.example/login''"
  let ?eng = "\<lparr>eng_rules = [kw_rule (ascii ''R-LOGIN'') match_any [ascii ''login''] True],
               eng_max_evidence_per_rule = 20,
               eng_compiled = [\<lparr>cr_rule = kw_rule (ascii ''R-LOGIN'') match_any [ascii ''login''] True,
                                cr_match_mode = match_any,
                                cr_patterns = [CompiledKeyword
                                  \<lparr>p_type = keyword, p_value = ascii ''login'', p_flags = None,
                                   p_label = Some (ascii ''keyword'')\<rparr> (ascii ''login'')]\<rparr>],
               eng_reputation = UrlReputationService_init []\<rparr>"
  have e: "RuleEngine_init ascii_lib [] [kw_rule (ascii ''R-LOGIN'') match_any [ascii ''login''] True] 20 =
      Inr ?eng"
    by (simp add: RuleEngine_init_def kw_rule_def compile_rule_def rule_patterns_def str_eval)
  have off: "svc_enabled (eng_reputation ?eng) = False"
    by (simp add: UrlReputationService_init_def str_eval)
  have y: "map rule_id (yaml_hits ?eng ?t (normalize_for_matching ascii_lib ?t)) = [ascii ''R-LOGIN'']"
    by (simp add: engine_eval str_eval)
  have ne: "?t \<noteq> []" by (simp add: ascii_def)
  have m: "fst (match ascii_lib ?W ?eng 0 ?t (Some (context_of (extract_all ascii_lib ?t)))) =
      Inr (yaml_hits ?eng ?t (normalize_for_matching ascii_lib ?t))"
    unfolding match_fst context_hits_disabled [OF off]
      example_message_context_full [unfolded example_message_text]
    using ne example_static_hits by simp
  have a: "fst (analyze ascii_lib ?W ?eng 0 (Some (ascii ''Hi''))
      (Some (ascii ''Go to https://bad.example/login'')) None None None None) =
      Inr (score_to_result (yaml_hits ?eng ?t (normalize_for_matching ascii_lib ?t)))"
    unfolding analyze_fst example_message_text m by simp
  have u: "map rule_id (res_hits (score_to_result hs)) = map rule_id (unique_hits hs)" for hs
    by (simp add: score_to_result_def Let_def)
  obtain h where hs: "yaml_hits ?eng ?t (normalize_for_matching ascii_lib ?t) = [h]"
    and hid: "rule_id h = ascii ''R-LOGIN''"
    using y by (cases "yaml_hits ?eng ?t (normalize_for_matching ascii_lib ?t)") auto
  have "map rule_id (res_hits (score_to_result [h])) = [ascii ''R-LOGIN'']"
    using hid by (simp add: u unique_hits_def)
  then show ?thesis unfolding e using a hs by simp
qed

lemma example_cached_none_not_served:
  "map_of (c_data (svc_cache (fst (snd (lookup_domain ascii_lib offline_world
      (UrlReputationService_init (ascii ''key'')) 0 (ascii ''bad.example''))))))
     (ascii ''vt:domain:bad.example'') = Some \<lparr>ent_value = None, ent_expires_at = 3601\<rparr> \<and>
   fst (lookup_domain ascii_lib \<lparr>w_clock = real, w_http = (\<lambda>d. Stats 7 0 0 0)\<rparr>
      (fst (snd (lookup_domain ascii_lib offline_world
         (UrlReputationService_init (ascii ''key'')) 0 (ascii ''bad.example''))))
      2 (ascii ''bad.example'')) =
     Inr (Some \<lparr>rep_domain = ascii ''bad.example'', rep_malicious = 7, rep_suspicious = 0,
                 rep_harmless = 0, rep_undetected = 0\<rparr>)"
  by (simp add: lookup_domain_def UrlReputationService_init_def TTLCache_init_def
      TTLCache_get_def TTLCache_set_def offline_world_def str_eval ascii_lib_def Let_def)

text \<open>
  C8 fails in the code for a lookup that errors after the \<open>try\<close> block of
  \<open>lookup_domain\<close>. The message with the subject \<open>Hi\<close> and the body
  \<open>Go to https://bad.example/login\<close> is analysed with a rule pack whose one rule has the
  keyword \<open>login\<close>, and the reputation service answers every request with a body from
  which the statistics cannot be read. With an API key, the lookup of \<open>bad.example\<close>
  raises and caches nothing, and \<open>analyze\<close> raises in place of returning a result; with
  no API key, \<open>analyze\<close> returns the hit of the keyword rule. Further, a failure that is
  cached is not served: after a request for \<open>bad.example\<close> that failed inside the \<open>try\<close>
  block, the cache holds the value \<open>None\<close> for the domain until time 3601, and the next
  lookup at time 2 asks the service again and returns what it answers.
\<close>

theorem malformed_response_aborts_analysis:
  "fst (lookup_domain ascii_lib \<lparr>w_clock = real, w_http = (\<lambda>d. MalformedBody)\<rparr>
      (UrlReputationService_init (ascii ''key'')) 0 (ascii ''bad.example'')) = Inl UncaughtError \<and>
   svc_cache (fst (snd (lookup_domain ascii_lib \<lparr>w_clock = real, w_http = (\<lambda>d. MalformedBody)\<rparr>
      (UrlReputationService_init (ascii ''key'')) 0 (ascii ''bad.example'')))) =
     TTLCache_init 3600 2000 \<and>
   (case RuleEngine_init ascii_lib (ascii ''key'')
          [kw_rule (ascii ''R-LOGIN'') match_any [ascii ''login''] True] 20 of
      Inl e \<Rightarrow> None
    | Inr eng \<Rightarrow>
        Some (fst (analyze ascii_lib \<lparr>w_clock = real, w_http = (\<lambda>d. MalformedBody)\<rparr> eng 0
                (Some (ascii ''Hi'')) (Some (ascii ''Go to https://bad.example/login''))
                None None None None))) = Some (Inl UncaughtError) \<and>
   (case RuleEngine_init ascii_lib []
          [kw_rule (ascii ''R-LOGIN'') match_any [ascii ''login''] True] 20 of
      Inl e \<Rightarrow> None
    | Inr eng \<Rightarrow>
        (case fst (analyze ascii_lib \<lparr>w_clock = real, w_http = (\<lambda>d. MalformedBody)\<rparr> eng 0
                (Some (ascii ''Hi'')) (Some (ascii ''Go to https://bad.example/login''))
                None None None None) of
           Inl e \<Rightarrow> None
         | Inr res \<Rightarrow> Some (map rule_id (res_hits res)))) = Some [ascii ''R-LOGIN''] \<and>
   map_of (c_data (svc_cache (fst (snd (lookup_domain ascii_lib offline_world
      (UrlReputationService_init (ascii ''key'')) 0 (ascii ''bad.example''))))))
     (ascii ''vt:domain:bad.example'') = Some \<lparr>ent_value = None, ent_expires_at = 3601\<rparr> \<and>
   fst (lookup_domain ascii_lib \<lparr>w_clock = real, w_http = (\<lambda>d. Stats 7 0 0 0)\<rparr>
      (fst (snd (lookup_domain ascii_lib offline_world
         (UrlReputationService_init (ascii ''key'')) 0 (ascii ''bad.example''))))
      2 (ascii ''bad.example'')) =
     Inr (Some \<lparr>rep_domain = ascii ''bad.example'', rep_malicious = 7, rep_suspicious = 0,
                 rep_harmless = 0, rep_undetected = 0\<rparr>)"
  using example_lookup_malformed example_analyze_malformed example_analyze_disabled
    example_cached_none_not_served
  by (intro conjI) (erule conjunct1 conjunct2 | assumption)+

section \<open>Properties of the extractor: a worked example\<close>

lemma url_finditer_example:
  "url_finditer L (ascii ''Click (https://example.com/path?a=1), then '' @ [34] @
      ascii ''https://x.com/abc'' @ [34] @ ascii ''...'') =
   [ascii ''https://example.com/path?a=1),'', ascii ''https://x.com/abc'' @ [34] @ ascii ''...'']"
  by (simp add: ascii_def url_finditer_def url_match_def is_word_def url_body_char_def
      py_isspace_def startswith_def)

lemma clean_url_example1:
  "clean_url L (ascii ''https://example.com/path?a=1),'') = ascii ''https://example.com/path?a=1''"
  by (simp add: clean_url_def str_eval WRAPPING_CHARS_def TRAILING_PUNCT_def
      strip_balanced_wrappers_def urlsplit_netloc_def ascii_alpha_def scheme_char_def)

lemma clean_url_example2:
  "clean_url L (ascii ''https://x.com/abc'' @ [34] @ ascii ''...'') = ascii ''https://x.com/abc''"
  by (simp add: clean_url_def str_eval WRAPPING_CHARS_def TRAILING_PUNCT_def
      strip_balanced_wrappers_def urlsplit_netloc_def ascii_alpha_def scheme_char_def)

text \<open>
  C9: on the text \<open>Click (https://example.com/path?a=1), then "https://x.com/abc"...\<close>
  (code point 34 is the double quote) \<open>extract_urls\<close> returns exactly the two cleaned
  URLs, in the order in which they appear.
\<close>

theorem extract_urls_example:
  "extract_urls L (ascii ''Click (https://example.com/path?a=1), then '' @ [34] @
      ascii ''https://x.com/abc'' @ [34] @ ascii ''...'') =
   [ascii ''https://example.com/path?a=1'', ascii ''https://x.com/abc'']"
proof -
  have ne: "ascii ''https://example.com/path?a=1'' \<noteq> ascii ''https://x.com/abc''"
    "ascii ''https://example.com/path?a=1'' \<noteq> []" "ascii ''https://x.com/abc'' \<noteq> []"
    "ascii ''Click (https://example.com/path?a=1), then '' @ [34] @
      ascii ''https://x.com/abc'' @ [34] @ ascii ''...'' \<noteq> []"
    by (simp_all add: ascii_def)
  show ?thesis
    unfolding extract_urls_def url_finditer_example
    using ne by (simp add: clean_url_example1 clean_url_example2 del: append.simps)
qed

section \<open>Properties of the analyzer: the empty message\<close>

lemma score_to_result_Nil:
  "score_to_result [] =
     \<lparr>res_score = 0, res_severity = low, res_action = allow,
      res_recommendations = [ascii ''allow'', ascii ''educate_user''],
      res_hits = [], res_highlights = []\<rparr>"
  by (simp add: score_to_result_def unique_hits_def raw_points_def normalize_score_def
      py_round_def severity_from_score_def max_severity_def choose_action_def
      recommendations_def build_highlights_def)

text \<open>
  C10: when every field of the message is \<open>None\<close> or empty, the composed text is empty
  and \<open>analyze\<close> returns score 0, severity low, action allow, the recommendations
  \<open>allow\<close>, \<open>educate_user\<close>, no hits and no highlights, whatever the engine holds; the
  reputation service is not consulted.
\<close>

theorem analyze_empty:
  assumes "subject = None \<or> subject = Some []"
    and "body = None \<or> body = Some []"
    and "from_email = None \<or> from_email = Some []"
    and "reply_to = None \<or> reply_to = Some []"
    and "headers_raw = None \<or> headers_raw = Some []"
    and "attachments = None \<or> attachments = Some []"
  shows "join_message_parts subject body from_email reply_to headers_raw attachments = [] \<and>
    analyze L W eng k subject body from_email reply_to headers_raw attachments =
      (Inr \<lparr>res_score = 0, res_severity = low, res_action = allow,
            res_recommendations = [ascii ''allow'', ascii ''educate_user''],
            res_hits = [], res_highlights = []\<rparr>,
       eng_reputation eng, k)"
proof -
  have t: "join_message_parts subject body from_email reply_to headers_raw attachments = []"
    using assms by (auto simp: join_message_parts_def truthy_def py_strip_def)
  show ?thesis
    by (simp add: t analyze_def match_def score_to_result_Nil)
qed

theorem analyze_empty_witness:
  "\<forall>L W eng k. analyze L W eng k None (Some []) None (Some []) None (Some []) =
      (Inr \<lparr>res_score = 0, res_severity = low, res_action = allow,
            res_recommendations = [ascii ''allow'', ascii ''educate_user''],
            res_hits = [], res_highlights = []\<rparr>,
       eng_reputation eng, k)"
  using analyze_empty [of None "Some []" None "Some []" None "Some []"] by simp

end
